theory Spec2Isabelle
  imports Main "HOL-Library.Sublist"
begin

section \<open>JavaScript string and array primitives used by the service\<close>

text \<open>
  Strings are \<^typ>\<open>string\<close>. The primitives below are the ones that
  \<^verbatim>\<open>review-comment.ts\<close> calls on strings and arrays:
  \<^verbatim>\<open>String.prototype.includes\<close>, \<^verbatim>\<open>String.prototype.replace\<close> with a string
  pattern, \<^verbatim>\<open>String.prototype.split\<close>, \<^verbatim>\<open>Array.prototype.join\<close>,
  \<^verbatim>\<open>Array.prototype.findIndex\<close>, \<^verbatim>\<open>Array.prototype.splice(i, 1)\<close> and
  \<^verbatim>\<open>Number.prototype.toString\<close> on integers.
\<close>

text \<open>\<^verbatim>\<open>s.includes(p)\<close>: \<open>p\<close> occurs in \<open>s\<close> as a contiguous substring
  (the empty string occurs in every string).\<close>

fun includes_str :: "string \<Rightarrow> string \<Rightarrow> bool" where
  "includes_str [] p = (p = [])"
| "includes_str (c # cs) p = (prefix p (c # cs) \<or> includes_str cs p)"

text \<open>
  The replacement text of \<^verbatim>\<open>String.prototype.replace\<close> is not taken literally:
  \<^verbatim>\<open>$$\<close> stands for a dollar sign, \<^verbatim>\<open>$&\<close> for the matched text,
  \<^verbatim>\<open>$`\<close> for the text before the match and \<^verbatim>\<open>$'\<close> for the text after it.
  With a string pattern there are no capture groups, so every other use of \<^verbatim>\<open>$\<close>
  stays as it is written.
\<close>

fun getSubstitution :: "string \<Rightarrow> string \<Rightarrow> string \<Rightarrow> string \<Rightarrow> string" where
  "getSubstitution matched preceding following [] = []"
| "getSubstitution matched preceding following [c] = [c]"
| "getSubstitution matched preceding following (c # d # ds) =
     (if c = CHR ''$'' then
        (if d = CHR ''$'' then CHR ''$'' # getSubstitution matched preceding following ds
         else if d = CHR ''&'' then matched @ getSubstitution matched preceding following ds
         else if d = CHR 0x60 then preceding @ getSubstitution matched preceding following ds
         else if d = CHR 0x27 then following @ getSubstitution matched preceding following ds
         else CHR ''$'' # getSubstitution matched preceding following (d # ds))
      else c # getSubstitution matched preceding following (d # ds))"

text \<open>\<^verbatim>\<open>s.replace(pat, rep)\<close> with a string pattern: only the first occurrence
  of \<open>pat\<close> is replaced; \<open>pre\<close> is the text already scanned.\<close>

fun replace_from :: "string \<Rightarrow> string \<Rightarrow> string \<Rightarrow> string \<Rightarrow> string" where
  "replace_from pre [] pat rep =
     (if pat = [] then pre @ getSubstitution [] pre [] rep else pre)"
| "replace_from pre (c # cs) pat rep =
     (if prefix pat (c # cs)
      then pre @ getSubstitution pat pre (drop (length pat) (c # cs)) rep
               @ drop (length pat) (c # cs)
      else replace_from (pre @ [c]) cs pat rep)"

definition replace :: "string \<Rightarrow> string \<Rightarrow> string \<Rightarrow> string" where
  "replace s pat rep = replace_from [] s pat rep"

text \<open>\<^verbatim>\<open>s.split(sep)\<close>: \<open>cur\<close> is the piece being collected. An empty
  separator cuts the string into its characters.\<close>

function split_from :: "string \<Rightarrow> string \<Rightarrow> string \<Rightarrow> string list" where
  "split_from cur [] sep = [cur]"
| "split_from cur (c # cs) sep =
     (if sep \<noteq> [] \<and> prefix sep (c # cs)
      then cur # split_from [] (drop (length sep) (c # cs)) sep
      else split_from (cur @ [c]) cs sep)"
  by pat_completeness auto
termination
  by (relation "measure (\<lambda>(cur, s, sep). length s)") auto

definition split :: "string \<Rightarrow> string \<Rightarrow> string list" where
  "split s sep = (if sep = [] then map (\<lambda>c. [c]) s else split_from [] s sep)"

text \<open>\<^verbatim>\<open>rows.join(sep)\<close>.\<close>

fun join :: "string list \<Rightarrow> string \<Rightarrow> string" where
  "join [] sep = []"
| "join [r] sep = r"
| "join (r # r' # rs) sep = r @ sep @ join (r' # rs) sep"

text \<open>\<^verbatim>\<open>rows.findIndex(p)\<close>: the index of the first element that satisfies
  \<open>p\<close>, and \<open>-1\<close> when there is none.\<close>

fun findIndex :: "('a \<Rightarrow> bool) \<Rightarrow> 'a list \<Rightarrow> int" where
  "findIndex p [] = -1"
| "findIndex p (x # xs) =
     (if p x then 0 else (let i = findIndex p xs in if i < 0 then -1 else i + 1))"

text \<open>\<^verbatim>\<open>rows.splice(i, 1)\<close> for an index \<open>i \<ge> 0\<close>: the array without
  its \<open>i\<close>-th element.\<close>

definition splice1 :: "nat \<Rightarrow> 'a list \<Rightarrow> 'a list" where
  "splice1 i xs = take i xs @ drop (Suc i) xs"

text \<open>\<^verbatim>\<open>n.toString()\<close> for an integer \<open>n\<close>.\<close>

fun digits :: "nat \<Rightarrow> string" where
  "digits n =
     (if n < 10 then [''0123456789'' ! n]
      else digits (n div 10) @ [''0123456789'' ! (n mod 10)])"

declare digits.simps [simp del]

definition toString :: "int \<Rightarrow> string" where
  "toString n = (if n < 0 then CHR ''-'' # digits (nat (- n)) else digits (nat n))"

section \<open>Data model\<close>

text \<open>
  \<^verbatim>\<open>CsvEntry\<close> is imported from \<^verbatim>\<open>./model\<close>: one review comment. The service
  reads the fields below; \<open>entry_id\<close> is the field \<^verbatim>\<open>id\<close> and \<open>priority\<close> is a
  number (\<^verbatim>\<open>copy.priority || 0\<close>).
\<close>

record CsvEntry =
  sha :: string
  filename :: string
  url :: string
  lines :: string
  title :: string
  comment :: string
  priority :: int
  category :: string
  additional :: string
  entry_id :: string

text \<open>\<^verbatim>\<open>CommentListEntry\<close>: what the list view hands to \<^verbatim>\<open>deleteComment\<close>;
  \<open>text_entry\<close> is the field \<^verbatim>\<open>text\<close>.\<close>

record CommentListEntry =
  label :: string
  text_entry :: string

text \<open>The part of a \<^verbatim>\<open>TextEditor\<close> that the service reads:
  \<^verbatim>\<open>editor.document.fileName\<close> and \<^verbatim>\<open>editor.selection\<close>.\<close>

record position =
  line :: nat
  character :: nat

record selection =
  sel_start :: position
  sel_end :: position

record TextEditor =
  fileName :: string
  selection :: "selection option"

text \<open>The service object: \<^verbatim>\<open>constructor(private reviewFile, private workspaceRoot)\<close>.\<close>

record ReviewCommentService =
  reviewFile :: string
  workspaceRoot :: string

subsection \<open>The file system and the notification channel\<close>

text \<open>
  The world is the review file (\<open>None\<close> when it does not exist) and the trace of what
  the service did to it and told the user. The messages of \<^verbatim>\<open>window.showErrorMessage\<close>
  are kept as constructors that carry the values spliced into the message text:
  \<^item> \<open>FileDoesNotExist f\<close>: "Could not add to file: 'f': File does not exist";
  \<^item> \<open>SelectAgain\<close>: "Error referencing file/lines, Please select again.";
  \<^item> \<open>CannotFindLineDefinition l n f\<close>: "Update failed. Cannot find line definition 'l'
    for 'n' in 'f'.";
  \<^item> \<open>CannotDeleteComment l f\<close>: "Update failed. Cannot delete comment 'l' in 'f'."
  The \<^verbatim>\<open>console.log\<close> of \<^verbatim>\<open>buildCsvString\<close> is not part of the world.
\<close>

datatype message =
    FileDoesNotExist string
  | SelectAgain
  | CannotFindLineDefinition string string string
  | CannotDeleteComment string string

datatype event =
    ShowErrorMessage message
  | ReadFile
  | WriteFile string
  | AppendFile string

datatype exn = ENOENT | TypeError

datatype outcome = Returned | Thrown exn

record world =
  fileContent :: "string option"
  trace :: "event list"

definition showErrorMessage :: "message \<Rightarrow> world \<Rightarrow> world" where
  "showErrorMessage m w = w\<lparr>trace := trace w @ [ShowErrorMessage m]\<rparr>"

definition existsSync :: "world \<Rightarrow> bool" where
  "existsSync w = (fileContent w \<noteq> None)"

text \<open>\<^verbatim>\<open>fs.readFileSync\<close> throws \<^verbatim>\<open>ENOENT\<close> on a file that does not exist.\<close>

definition readFileSync :: "world \<Rightarrow> (exn + string) \<times> world" where
  "readFileSync w =
     (case fileContent w of
        None \<Rightarrow> Inl ENOENT
      | Some s \<Rightarrow> Inr s,
      w\<lparr>trace := trace w @ [ReadFile]\<rparr>)"

definition writeFileSync :: "string \<Rightarrow> world \<Rightarrow> world" where
  "writeFileSync content w = w\<lparr>fileContent := Some content, trace := trace w @ [WriteFile content]\<rparr>"

text \<open>\<^verbatim>\<open>fs.appendFileSync\<close> creates the file when it does not exist.\<close>

definition appendFileSync :: "string \<Rightarrow> world \<Rightarrow> world" where
  "appendFileSync content w =
     w\<lparr>fileContent := Some (case fileContent w of None \<Rightarrow> content | Some old \<Rightarrow> old @ content),
        trace := trace w @ [AppendFile content]\<rparr>"

subsection \<open>Collaborators that are imported by the service\<close>

text \<open>
  \<^verbatim>\<open>review-comment.ts\<close> imports its helpers from \<^verbatim>\<open>./utils/workspace-util\<close>,
  \<^verbatim>\<open>./utils/editor-utils\<close>, \<^verbatim>\<open>./utils/storage-utils\<close> and \<^verbatim>\<open>./model\<close>, reads
  three settings from the workspace configuration, the line terminator from \<^verbatim>\<open>os\<close>
  and the commit from \<^verbatim>\<open>git-commit-id\<close>. They are parameters of the service here:
  \<^item> \<open>getCsvFileLinesAsArray\<close> is given the review file as the world has it, and
    fails or returns the rows;
  \<^item> \<open>gitCommitId root dir\<close> is
    \<^verbatim>\<open>gitCommitId({ cwd: path.resolve(workspaceRoot, gitDirectory) })\<close>, \<open>None\<close> when
    it throws;
  \<^item> a line number is \<^typ>\<open>int option\<close>, \<open>None\<close> for \<^verbatim>\<open>undefined\<close>;
  \<^item> a setting that is not configured is the empty string.
\<close>

record collaborators =
  removeLeadingAndTrailingSlash :: "string \<Rightarrow> string"
  removeTrailingSlash :: "string \<Rightarrow> string"
  escapeDoubleQuotesForCsv :: "string \<Rightarrow> string"
  escapeEndOfLineForCsv :: "string \<Rightarrow> string"
  startLineNumberFromStringDefinition :: "string \<Rightarrow> int option"
  endLineNumberFromStringDefinition :: "string \<Rightarrow> int option"
  getSelectionStringDefinition :: "TextEditor \<Rightarrow> string"
  hasSelection :: "TextEditor option \<Rightarrow> bool"
  cleanCsvStorage :: "string list \<Rightarrow> string list"
  getCsvFileLinesAsArray :: "string option \<Rightarrow> exn + string list"
  formatAsCsvLine :: "CsvEntry \<Rightarrow> string"
  gitCommitId :: "string \<Rightarrow> string \<Rightarrow> string option"
  gitDirectory :: string
  customUrl :: string
  baseUrl :: string
  EOL :: string

section \<open>The review comment service\<close>

text \<open>\<^verbatim>\<open>checkFileExists\<close>: the message is shown when the review file is missing.
  The \<^verbatim>\<open>return\<close> in its body leaves \<^verbatim>\<open>checkFileExists\<close> itself; the
  method gives no value to its caller.\<close>

definition checkFileExists :: "ReviewCommentService \<Rightarrow> world \<Rightarrow> world" where
  "checkFileExists svc w =
     (if \<not> existsSync w then showErrorMessage (FileDoesNotExist (reviewFile svc)) w else w)"

text \<open>\<^verbatim>\<open>getSelectedLines\<close> updates \<^verbatim>\<open>comment.lines\<close> in place; the entry is
  returned with the flag.\<close>

definition getSelectedLines ::
  "collaborators \<Rightarrow> CsvEntry \<Rightarrow> TextEditor option \<Rightarrow> bool \<Rightarrow> world \<Rightarrow> bool \<times> CsvEntry \<times> world"
where
  "getSelectedLines d c editor ignoreIfNone w =
     (if ignoreIfNone \<and> \<not> hasSelection d editor then (True, c, w)
      else
        (case editor of
           None \<Rightarrow> (False, c, showErrorMessage SelectAgain w)
         | Some e \<Rightarrow>
             (case selection e of
                None \<Rightarrow> (False, c, showErrorMessage SelectAgain w)
              | Some s \<Rightarrow> (True, c\<lparr>lines := getSelectionStringDefinition d e\<rparr>, w))))"

definition persistComments :: "collaborators \<Rightarrow> string list \<Rightarrow> bool \<Rightarrow> world \<Rightarrow> world" where
  "persistComments d rows overwrite w =
     (let content = join (cleanCsvStorage d rows) (EOL d) @ EOL d
      in if overwrite then writeFileSync content w else appendFileSync content w)"

text \<open>A number in a condition: \<^verbatim>\<open>undefined\<close> and \<open>0\<close> count as false.\<close>

fun truthy :: "int option \<Rightarrow> bool" where
  "truthy None = False"
| "truthy (Some n) = (n \<noteq> 0)"

text \<open>\<^verbatim>\<open>start ? start.toString() : '0'\<close>\<close>

fun toStringOrZero :: "int option \<Rightarrow> string" where
  "toStringOrZero None = ''0''"
| "toStringOrZero (Some n) = (if n \<noteq> 0 then toString n else ''0'')"

text \<open>\<^verbatim>\<open>start && end ? `#L${start}-L${end}` : ''\<close>\<close>

fun ankerPart :: "int option \<Rightarrow> int option \<Rightarrow> string" where
  "ankerPart (Some s) (Some e) =
     (if s \<noteq> 0 \<and> e \<noteq> 0 then ''#L'' @ toString s @ ''-L'' @ toString e else [])"
| "ankerPart _ _ = []"

definition remoteUrl ::
  "collaborators \<Rightarrow> string \<Rightarrow> string \<Rightarrow> int option \<Rightarrow> int option \<Rightarrow> string"
where
  "remoteUrl d sha' filePath start end' =
     (let filePathWithoutLeadingAndTrailingSlash = removeLeadingAndTrailingSlash d filePath
      in if baseUrl d = [] \<and> customUrl d = [] then []
         else if customUrl d \<noteq> [] then
           replace
             (replace
                (replace
                   (replace (customUrl d) ''{sha}'' sha')
                   ''{file}'' filePathWithoutLeadingAndTrailingSlash)
                ''{start}'' (toStringOrZero start))
             ''{end}'' (toStringOrZero end')
         else
           (let baseUrlWithoutTrailingSlash = removeTrailingSlash d (baseUrl d);
                shaPart = (if sha' \<noteq> [] then sha' @ ''/'' else [])
            in baseUrlWithoutTrailingSlash @ ''/'' @ shaPart
                 @ filePathWithoutLeadingAndTrailingSlash @ ankerPart start end'))"

text \<open>\<^verbatim>\<open>buildCsvString\<close> works on a copy of the entry; \<open>escaped\<close> is the copy
  after the five assignments, \<open>withSha\<close> after the commit lookup.\<close>

definition buildCsvString :: "collaborators \<Rightarrow> ReviewCommentService \<Rightarrow> CsvEntry \<Rightarrow> string" where
  "buildCsvString d svc c =
     (let escaped = c
            \<lparr>comment := escapeEndOfLineForCsv d (escapeDoubleQuotesForCsv d (comment c)),
             title := (if title c \<noteq> [] then escapeDoubleQuotesForCsv d (title c) else []),
             priority := (if priority c \<noteq> 0 then priority c else 0),
             additional :=
               (if additional c \<noteq> [] then escapeDoubleQuotesForCsv d (additional c) else []),
             category := (if category c \<noteq> [] then category c else [])\<rparr>;
          withSha = escaped
            \<lparr>sha := (case gitCommitId d (workspaceRoot svc) (gitDirectory d) of
                       Some commit \<Rightarrow> commit
                     | None \<Rightarrow> [])\<rparr>;
          startAnker = startLineNumberFromStringDefinition d (lines withSha);
          endAnker = endLineNumberFromStringDefinition d (lines withSha)
      in formatAsCsvLine d
           (withSha\<lparr>url := remoteUrl d (sha withSha) (filename withSha) startAnker endAnker\<rparr>))"

text \<open>The three operations return how they ended, the entry as they left it (they
  assign to its fields) and the world. \<^verbatim>\<open>editor!.document\<close> on a \<^verbatim>\<open>null\<close>
  editor is a \<^verbatim>\<open>TypeError\<close>.\<close>

definition addComment ::
  "collaborators \<Rightarrow> ReviewCommentService \<Rightarrow> CsvEntry \<Rightarrow> TextEditor option \<Rightarrow> world
     \<Rightarrow> outcome \<times> CsvEntry \<times> world"
where
  "addComment d svc c editor w =
     (let w1 = checkFileExists svc w
      in case getSelectedLines d c editor False w1 of
           (ok, c1, w2) \<Rightarrow>
             if \<not> ok then (Returned, c1, w2)
             else
               (case editor of
                  None \<Rightarrow> (Thrown TypeError, c1, w2)
                | Some e \<Rightarrow>
                    (let c2 = c1\<lparr>filename := replace (fileName e) (workspaceRoot svc) []\<rparr>
                     in (Returned, c2, persistComments d [buildCsvString d svc c2] False w2))))"

definition updateComment ::
  "collaborators \<Rightarrow> ReviewCommentService \<Rightarrow> CsvEntry \<Rightarrow> TextEditor option \<Rightarrow> world
     \<Rightarrow> outcome \<times> CsvEntry \<times> world"
where
  "updateComment d svc c editor w =
     (let w1 = checkFileExists svc w;
          fallBackKey = lines c
      in case getSelectedLines d c editor True w1 of
           (ok, c1, w2) \<Rightarrow>
             if \<not> ok then (Returned, c1, w2)
             else
               (let w3 = w2\<lparr>trace := trace w2 @ [ReadFile]\<rparr>
                in case getCsvFileLinesAsArray d (fileContent w2) of
                     Inl e \<Rightarrow> (Thrown e, c1, w3)
                   | Inr rows \<Rightarrow>
                       (let byId = findIndex (\<lambda>row. includes_str row (entry_id c1)) rows;
                            updateRowIndex =
                              (if byId < 0
                               then findIndex
                                      (\<lambda>row. includes_str row (filename c1)
                                               \<and> includes_str row fallBackKey) rows
                               else byId)
                        in if updateRowIndex < 0
                           then (Returned, c1,
                                 showErrorMessage
                                   (CannotFindLineDefinition (lines c1) (filename c1)
                                      (reviewFile svc)) w3)
                           else (Returned, c1,
                                 persistComments d
                                   (rows[nat updateRowIndex := buildCsvString d svc c1])
                                   True w3))))"

definition deleteComment ::
  "collaborators \<Rightarrow> ReviewCommentService \<Rightarrow> CommentListEntry \<Rightarrow> world \<Rightarrow> outcome \<times> world"
where
  "deleteComment d svc entry w =
     (let w1 = checkFileExists svc w
      in case readFileSync w1 of
           (Inl e, w2) \<Rightarrow> (Thrown e, w2)
         | (Inr oldFileContent, w2) \<Rightarrow>
             (let rows = split oldFileContent (EOL d);
                  textEscaped =
                    escapeEndOfLineForCsv d (escapeDoubleQuotesForCsv d (text_entry entry));
                  updateRowIndex =
                    findIndex
                      (\<lambda>row. includes_str row (label entry) \<and> includes_str row textEscaped) rows
              in if updateRowIndex > -1
                 then (Returned, persistComments d (splice1 (nat updateRowIndex) rows) True w2)
                 else (Returned,
                       showErrorMessage
                         (CannotDeleteComment (label entry) (reviewFile svc)) w2)))"

section \<open>An instance of the collaborators\<close>

text \<open>Modelled from the spec: \<^verbatim>\<open>escapeDoubleQuotesForCsv\<close> of
  \<^verbatim>\<open>./utils/workspace-util\<close> is not among the sources. The spec asks that quote
  characters are escaped; every double quote is doubled, as CSV does.\<close>

fun escapeDoubleQuotesForCsv_spec :: "string \<Rightarrow> string" where
  "escapeDoubleQuotesForCsv_spec [] = []"
| "escapeDoubleQuotesForCsv_spec (c # cs) =
     (if c = CHR 0x22 then CHR 0x22 # CHR 0x22 # escapeDoubleQuotesForCsv_spec cs
      else c # escapeDoubleQuotesForCsv_spec cs)"

text \<open>Modelled from the spec: \<^verbatim>\<open>escapeEndOfLineForCsv\<close> of
  \<^verbatim>\<open>./utils/workspace-util\<close> is not among the sources. The spec asks that embedded
  line breaks are escaped; every line feed becomes a backslash and the letter n.\<close>

fun escapeEndOfLineForCsv_spec :: "string \<Rightarrow> string" where
  "escapeEndOfLineForCsv_spec [] = []"
| "escapeEndOfLineForCsv_spec (c # cs) =
     (if c = CHR 0x0A then CHR 0x5C # CHR ''n'' # escapeEndOfLineForCsv_spec cs
      else c # escapeEndOfLineForCsv_spec cs)"

text \<open>Modelled from the spec: \<^verbatim>\<open>removeTrailingSlash\<close> of
  \<^verbatim>\<open>./utils/workspace-util\<close> is not among the sources. The spec says
  "strip trailing slash".\<close>

definition removeTrailingSlash_spec :: "string \<Rightarrow> string" where
  "removeTrailingSlash_spec s = (if s \<noteq> [] \<and> last s = CHR ''/'' then butlast s else s)"

text \<open>Modelled from the spec: \<^verbatim>\<open>removeLeadingAndTrailingSlash\<close> of
  \<^verbatim>\<open>./utils/workspace-util\<close> is not among the sources. The spec says that the file
  path is "stripped of leading and trailing slashes".\<close>

definition removeLeadingAndTrailingSlash_spec :: "string \<Rightarrow> string" where
  "removeLeadingAndTrailingSlash_spec s =
     removeTrailingSlash_spec
       (case s of [] \<Rightarrow> [] | c # cs \<Rightarrow> if c = CHR ''/'' then cs else c # cs)"

text \<open>Modelled from the spec: the line-range codec (\<^verbatim>\<open>getSelectionStringDefinition\<close>
  of \<^verbatim>\<open>./utils/editor-utils\<close>, \<^verbatim>\<open>startLineNumberFromStringDefinition\<close> and
  \<^verbatim>\<open>endLineNumberFromStringDefinition\<close> of \<^verbatim>\<open>./utils/workspace-util\<close>) is not
  among the sources. The spec gives \<^verbatim>\<open>"12"\<close> for a single line and \<^verbatim>\<open>"12-20"\<close>
  for a range, and says that the end of a single-line selection decodes to undefined.\<close>

definition getSelectionStringDefinition_spec :: "TextEditor \<Rightarrow> string" where
  "getSelectionStringDefinition_spec e =
     (case selection e of
        None \<Rightarrow> []
      | Some s \<Rightarrow>
          if line (sel_start s) = line (sel_end s) then toString (int (line (sel_start s)))
          else toString (int (line (sel_start s))) @ ''-'' @ toString (int (line (sel_end s))))"

definition digitValue :: "char \<Rightarrow> nat option" where
  "digitValue c = map_of (zip ''0123456789'' [0, 1, 2, 3, 4, 5, 6, 7, 8, 9]) c"

fun parseDigits :: "nat \<Rightarrow> string \<Rightarrow> nat option" where
  "parseDigits n [] = Some n"
| "parseDigits n (c # cs) =
     (case digitValue c of None \<Rightarrow> None | Some v \<Rightarrow> parseDigits (10 * n + v) cs)"

definition parseLineNumber :: "string \<Rightarrow> int option" where
  "parseLineNumber s = (if s = [] then None else map_option int (parseDigits 0 s))"

definition startLineNumberFromStringDefinition_spec :: "string \<Rightarrow> int option" where
  "startLineNumberFromStringDefinition_spec def =
     parseLineNumber (takeWhile (\<lambda>c. c \<noteq> CHR ''-'') def)"

definition endLineNumberFromStringDefinition_spec :: "string \<Rightarrow> int option" where
  "endLineNumberFromStringDefinition_spec def =
     (case dropWhile (\<lambda>c. c \<noteq> CHR ''-'') def of
        [] \<Rightarrow> None
      | c # cs \<Rightarrow> parseLineNumber cs)"

text \<open>Modelled from the spec: \<^verbatim>\<open>hasSelection\<close> of \<^verbatim>\<open>./utils/editor-utils\<close> is
  not among the sources. The spec speaks of an "empty/absent selection": there is a
  selection when the editor has one and it is not empty.\<close>

definition hasSelection_spec :: "TextEditor option \<Rightarrow> bool" where
  "hasSelection_spec editor =
     (case editor of
        None \<Rightarrow> False
      | Some e \<Rightarrow>
          (case selection e of None \<Rightarrow> False | Some s \<Rightarrow> sel_start s \<noteq> sel_end s))"

text \<open>Modelled from the spec: \<^verbatim>\<open>cleanCsvStorage\<close> of \<^verbatim>\<open>./utils/storage-utils\<close>
  is not among the sources. The spec says that "no row is empty after
  normalization".\<close>

definition cleanCsvStorage_spec :: "string list \<Rightarrow> string list" where
  "cleanCsvStorage_spec rows = filter (\<lambda>row. row \<noteq> []) rows"

text \<open>Modelled from the spec: \<^verbatim>\<open>getCsvFileLinesAsArray\<close> of
  \<^verbatim>\<open>./utils/storage-utils\<close> is not among the sources. The spec says that a row is
  a raw text line of the file, read in one read of the full file.\<close>

definition getCsvFileLinesAsArray_spec :: "string \<Rightarrow> string option \<Rightarrow> exn + string list" where
  "getCsvFileLinesAsArray_spec eol f =
     (case f of None \<Rightarrow> Inl ENOENT | Some s \<Rightarrow> Inr (split s eol))"

text \<open>Modelled from the spec: \<^verbatim>\<open>CsvStructure.formatAsCsvLine\<close> of \<^verbatim>\<open>./model\<close> is
  not among the sources. The spec says "one delimited line with fields in a fixed,
  documented order"; the fields are taken in the order of the data model, separated by
  commas, the three escaped texts between double quotes.\<close>

definition quoted :: "string \<Rightarrow> string" where
  "quoted s = CHR 0x22 # s @ [CHR 0x22]"

definition formatAsCsvLine_spec :: "CsvEntry \<Rightarrow> string" where
  "formatAsCsvLine_spec c =
     join [sha c, filename c, url c, lines c, quoted (title c), quoted (comment c),
           toString (priority c), category c, quoted (additional c), entry_id c] '',''"

text \<open>The instance: line feed as the terminator, the two URL settings and the result of
  the commit lookup as given.\<close>

definition spec_collaborators :: "string \<Rightarrow> string \<Rightarrow> string option \<Rightarrow> collaborators" where
  "spec_collaborators custom base commit =
     \<lparr>removeLeadingAndTrailingSlash = removeLeadingAndTrailingSlash_spec,
      removeTrailingSlash = removeTrailingSlash_spec,
      escapeDoubleQuotesForCsv = escapeDoubleQuotesForCsv_spec,
      escapeEndOfLineForCsv = escapeEndOfLineForCsv_spec,
      startLineNumberFromStringDefinition = startLineNumberFromStringDefinition_spec,
      endLineNumberFromStringDefinition = endLineNumberFromStringDefinition_spec,
      getSelectionStringDefinition = getSelectionStringDefinition_spec,
      hasSelection = hasSelection_spec,
      cleanCsvStorage = cleanCsvStorage_spec,
      getCsvFileLinesAsArray = getCsvFileLinesAsArray_spec [CHR 0x0A],
      formatAsCsvLine = formatAsCsvLine_spec,
      gitCommitId = (\<lambda>root dir. commit),
      gitDirectory = ''.'',
      customUrl = custom,
      baseUrl = base,
      EOL = [CHR 0x0A]\<rparr>"

subsection \<open>Example inputs\<close>

text \<open>A service on \<^verbatim>\<open>review.csv\<close> in the workspace \<^verbatim>\<open>/ws\<close>, an editor on
  \<^verbatim>\<open>/ws/src/x.ts\<close> with the lines 5 to 10 selected, the same editor with nothing
  selected, and an entry for that file.\<close>

definition example_service :: ReviewCommentService where
  "example_service = \<lparr>reviewFile = ''review.csv'', workspaceRoot = ''/ws''\<rparr>"

definition example_editor :: TextEditor where
  "example_editor =
     \<lparr>fileName = ''/ws/src/x.ts'',
      selection = Some \<lparr>sel_start = \<lparr>line = 5, character = 0\<rparr>,
                        sel_end = \<lparr>line = 10, character = 2\<rparr>\<rparr>\<rparr>"

definition example_editor_no_selection :: TextEditor where
  "example_editor_no_selection =
     \<lparr>fileName = ''/ws/src/x.ts'',
      selection = Some \<lparr>sel_start = \<lparr>line = 7, character = 3\<rparr>,
                        sel_end = \<lparr>line = 7, character = 3\<rparr>\<rparr>\<rparr>"

definition example_entry :: CsvEntry where
  "example_entry =
     \<lparr>sha = [], filename = ''/src/x.ts'', url = [], lines = ''5-10'', title = ''T'',
      comment = ''hi'', priority = 1, category = [], additional = [], entry_id = ''id-1''\<rparr>"

definition missing_file :: world where
  "missing_file = \<lparr>fileContent = None, trace = []\<rparr>"

text \<open>A review file of two rows, the second one for \<^verbatim>\<open>/src/x.ts\<close>, lines 5 to 10
  and the identifier \<^verbatim>\<open>id-1\<close>.\<close>

definition stored_file :: world where
  "stored_file =
     \<lparr>fileContent =
        Some (''/src/a.ts,1-2,id-0'' @ [CHR 0x0A] @ ''/src/x.ts,5-10,id-1'' @ [CHR 0x0A]),
      trace = []\<rparr>"

text \<open>A review file of three rows; the first and the third contain the same label
  and comment text.\<close>

definition listed_file :: world where
  "listed_file =
     \<lparr>fileContent =
        Some (''Naming,rename this,id-0'' @ [CHR 0x0A] @ ''Typo,fix typo,id-1'' @ [CHR 0x0A]
                @ ''Naming,rename this,id-2'' @ [CHR 0x0A]),
      trace = []\<rparr>"

subsection \<open>Substitution at the first occurrence\<close>





section \<open>Facts about the primitives\<close>


lemma findIndex_ge: "- 1 \<le> findIndex p xs"
  by (induction xs) (auto simp: Let_def)

lemma findIndex_neg_iff: "findIndex p xs < 0 \<longleftrightarrow> (\<forall>x \<in> set xs. \<not> p x)"
proof (induction xs)
  case Nil
  show ?case by simp
next
  case (Cons x xs)
  have "- 1 \<le> findIndex p xs" by (rule findIndex_ge)
  with Cons show ?case by (auto simp: Let_def)
qed

lemma findIndex_neg_eq: "findIndex p xs < 0 \<Longrightarrow> findIndex p xs = - 1"
  by (induction xs) (auto simp: Let_def split: if_splits)

lemma findIndex_first:
  "0 \<le> findIndex p xs \<Longrightarrow>
     nat (findIndex p xs) < length xs \<and> p (xs ! nat (findIndex p xs))
     \<and> (\<forall>j < nat (findIndex p xs). \<not> p (xs ! j))"
proof (induction xs)
  case Nil
  then show ?case by simp
next
  case (Cons x xs)
  show ?case
  proof (cases "p x")
    case True
    then show ?thesis by simp
  next
    case False
    with Cons.prems have pos: "0 \<le> findIndex p xs"
      by (auto simp: Let_def split: if_splits)
    then have eq: "findIndex p (x # xs) = findIndex p xs + 1"
      using False by (simp add: Let_def)
    have n: "nat (findIndex p xs + 1) = Suc (nat (findIndex p xs))"
      using pos by simp
    from Cons.IH [OF pos] False show ?thesis
      unfolding eq n by (auto simp: less_Suc_eq_0_disj)
  qed
qed

section \<open>The remote URL builder\<close>

lemma toString_5: "toString 5 = ''5''"
  by (simp add: toString_def digits.simps)

lemma toString_10: "toString 10 = ''10''"
  by (simp add: toString_def digits.simps)

lemma toString_3: "toString 3 = ''3''"
  by (simp add: toString_def digits.simps)

text \<open>
  C6. With no custom template and a base URL configured, the remote URL is the base URL
  as \<^verbatim>\<open>removeTrailingSlash\<close> returns it, a slash, the commit followed by a slash
  when the commit is not empty, the file path as \<^verbatim>\<open>removeLeadingAndTrailingSlash\<close>
  returns it, and the anchor. The anchor is not empty only when both line numbers are
  given, and it is \<^verbatim>\<open>#L<start>-L<end>\<close> for two line numbers other than zero. For
  the base \<^verbatim>\<open>https://git.example/repo\<close>, the commit \<^verbatim>\<open>abc123\<close>, the file
  \<^verbatim>\<open>/src/x.ts\<close> and the lines 5 to 10 the URL is
  \<^verbatim>\<open>https://git.example/repo/abc123/src/x.ts#L5-L10\<close>, whenever the two helpers leave
  that base as it is and strip the leading slash of that path.
\<close>

theorem remoteUrl_base_url_form:
  assumes "customUrl d = []" and "baseUrl d \<noteq> []"
  shows "remoteUrl d commit filePath start end' =
           removeTrailingSlash d (baseUrl d) @ ''/''
             @ (if commit \<noteq> [] then commit @ ''/'' else [])
             @ removeLeadingAndTrailingSlash d filePath
             @ ankerPart start end'
         \<and> (ankerPart start end' \<noteq> [] \<longrightarrow> start \<noteq> None \<and> end' \<noteq> None)
         \<and> (s \<noteq> 0 \<and> e \<noteq> 0 \<longrightarrow>
               ankerPart (Some s) (Some e) = ''#L'' @ toString s @ ''-L'' @ toString e)
         \<and> (baseUrl d = ''https://git.example/repo''
               \<and> removeTrailingSlash d ''https://git.example/repo''
                   = ''https://git.example/repo''
               \<and> removeLeadingAndTrailingSlash d ''/src/x.ts'' = ''src/x.ts''
             \<longrightarrow> remoteUrl d ''abc123'' ''/src/x.ts'' (Some 5) (Some 10)
                   = ''https://git.example/repo/abc123/src/x.ts#L5-L10'')"
proof (intro conjI)
  show "remoteUrl d commit filePath start end' =
           removeTrailingSlash d (baseUrl d) @ ''/''
             @ (if commit \<noteq> [] then commit @ ''/'' else [])
             @ removeLeadingAndTrailingSlash d filePath
             @ ankerPart start end'"
    using assms by (simp add: remoteUrl_def Let_def)
  show "ankerPart start end' \<noteq> [] \<longrightarrow> start \<noteq> None \<and> end' \<noteq> None"
    by (cases start; cases end') simp_all
  show "s \<noteq> 0 \<and> e \<noteq> 0 \<longrightarrow>
           ankerPart (Some s) (Some e) = ''#L'' @ toString s @ ''-L'' @ toString e"
    by simp
  show "baseUrl d = ''https://git.example/repo''
           \<and> removeTrailingSlash d ''https://git.example/repo'' = ''https://git.example/repo''
           \<and> removeLeadingAndTrailingSlash d ''/src/x.ts'' = ''src/x.ts''
         \<longrightarrow> remoteUrl d ''abc123'' ''/src/x.ts'' (Some 5) (Some 10)
               = ''https://git.example/repo/abc123/src/x.ts#L5-L10''"
    using assms(1) by (simp add: remoteUrl_def Let_def toString_5 toString_10)
qed

theorem remoteUrl_base_url_form_witness:
  "remoteUrl (spec_collaborators [] ''https://git.example/repo'' None)
     ''abc123'' ''/src/x.ts'' (Some 5) (Some 10)
   = ''https://git.example/repo/abc123/src/x.ts#L5-L10''
   \<and> remoteUrl (spec_collaborators [] ''https://git.example/repo/'' None)
       [] ''/src/x.ts/'' (Some 5) None
     = ''https://git.example/repo/src/x.ts''"
proof -
  let ?d = "spec_collaborators [] ''https://git.example/repo'' None"
  let ?d' = "spec_collaborators [] ''https://git.example/repo/'' None"
  have custom: "customUrl ?d = []" "customUrl ?d' = []"
    by (simp_all add: spec_collaborators_def)
  have base: "baseUrl ?d \<noteq> []" "baseUrl ?d' \<noteq> []"
    by (simp_all add: spec_collaborators_def)
  have helpers:
    "baseUrl ?d = ''https://git.example/repo''
     \<and> removeTrailingSlash ?d ''https://git.example/repo'' = ''https://git.example/repo''
     \<and> removeLeadingAndTrailingSlash ?d ''/src/x.ts'' = ''src/x.ts''"
    by (simp add: spec_collaborators_def removeTrailingSlash_spec_def
        removeLeadingAndTrailingSlash_spec_def)
  have first: "remoteUrl ?d ''abc123'' ''/src/x.ts'' (Some 5) (Some 10)
                 = ''https://git.example/repo/abc123/src/x.ts#L5-L10''"
    using remoteUrl_base_url_form [OF custom(1) base(1)] helpers by blast
  have "remoteUrl ?d' [] ''/src/x.ts/'' (Some 5) None =
          removeTrailingSlash ?d' (baseUrl ?d') @ ''/''
            @ (if ([]::string) \<noteq> [] then [] @ ''/'' else [])
            @ removeLeadingAndTrailingSlash ?d' ''/src/x.ts/''
            @ ankerPart (Some 5) None"
    using remoteUrl_base_url_form [OF custom(2) base(2)] by blast
  then have second: "remoteUrl ?d' [] ''/src/x.ts/'' (Some 5) None
                       = ''https://git.example/repo/src/x.ts''"
    by (simp add: spec_collaborators_def removeTrailingSlash_spec_def
        removeLeadingAndTrailingSlash_spec_def)
  from first second show ?thesis by simp
qed

text \<open>
  C7. When neither the custom template nor the base URL is configured, the remote URL is
  the empty string. When a custom template is configured, the remote URL is that
  template with its placeholders replaced, and it is the same whatever the base URL
  setting is.
\<close>

theorem remoteUrl_precedence:
  "(baseUrl d = [] \<and> customUrl d = [] \<longrightarrow> remoteUrl d commit filePath start end' = [])
   \<and> (customUrl d \<noteq> [] \<longrightarrow>
        remoteUrl d commit filePath start end' =
          replace
            (replace
               (replace
                  (replace (customUrl d) ''{sha}'' commit)
                  ''{file}'' (removeLeadingAndTrailingSlash d filePath))
               ''{start}'' (toStringOrZero start))
            ''{end}'' (toStringOrZero end')
        \<and> remoteUrl (d\<lparr>baseUrl := b\<rparr>) commit filePath start end'
            = remoteUrl d commit filePath start end')"
  by (simp add: remoteUrl_def Let_def)

theorem remoteUrl_precedence_witness:
  "remoteUrl (spec_collaborators [] [] None) ''abc123'' ''/src/x.ts'' (Some 5) (Some 10) = []
   \<and> remoteUrl (spec_collaborators (''{file}@'' @ ''{sha}:{start}'') [] None)
       ''deadbeef'' ''a.ts'' (Some 3) None = ''a.ts@deadbeef:3''
   \<and> remoteUrl (spec_collaborators (''{file}@'' @ ''{sha}:{start}'') ''https://git.example/repo'' None)
       ''deadbeef'' ''a.ts'' (Some 3) None = ''a.ts@deadbeef:3''"
proof -
  let ?none = "spec_collaborators [] [] None"
  let ?custom = "spec_collaborators (''{file}@'' @ ''{sha}:{start}'') [] None"
  let ?both = "spec_collaborators (''{file}@'' @ ''{sha}:{start}'') ''https://git.example/repo'' None"
  have neither: "baseUrl ?none = [] \<and> customUrl ?none = []"
    by (simp add: spec_collaborators_def)
  have configured: "customUrl ?custom \<noteq> []"
    by (simp add: spec_collaborators_def)
  have both: "?both = ?custom\<lparr>baseUrl := ''https://git.example/repo''\<rparr>"
    by (simp add: spec_collaborators_def)
  have empty: "remoteUrl ?none ''abc123'' ''/src/x.ts'' (Some 5) (Some 10) = []"
    using remoteUrl_precedence [of ?none] neither by blast
  have chain: "remoteUrl ?custom ''deadbeef'' ''a.ts'' (Some 3) None =
                 replace
                   (replace
                      (replace
                         (replace (customUrl ?custom) ''{sha}'' ''deadbeef'')
                         ''{file}'' (removeLeadingAndTrailingSlash ?custom ''a.ts''))
                      ''{start}'' (toStringOrZero (Some 3)))
                   ''{end}'' (toStringOrZero None)"
    and same: "remoteUrl (?custom\<lparr>baseUrl := ''https://git.example/repo''\<rparr>)
                 ''deadbeef'' ''a.ts'' (Some 3) None
               = remoteUrl ?custom ''deadbeef'' ''a.ts'' (Some 3) None"
    using remoteUrl_precedence [of ?custom] configured by blast+
  have url: "remoteUrl ?custom ''deadbeef'' ''a.ts'' (Some 3) None = ''a.ts@deadbeef:3''"
    unfolding chain
    by (simp add: spec_collaborators_def removeTrailingSlash_spec_def
        removeLeadingAndTrailingSlash_spec_def replace_def toString_3)
  from empty url same both show ?thesis by simp
qed

section \<open>Facts about the service's steps\<close>

lemma checkFileExists_missing:
  "fileContent w = None \<Longrightarrow>
     checkFileExists svc w
       = w\<lparr>trace := trace w @ [ShowErrorMessage (FileDoesNotExist (reviewFile svc))]\<rparr>"
  by (simp add: checkFileExists_def existsSync_def showErrorMessage_def)

lemma checkFileExists_present: "fileContent w = Some old \<Longrightarrow> checkFileExists svc w = w"
  by (simp add: checkFileExists_def existsSync_def)

lemma fileContent_checkFileExists [simp]:
  "fileContent (checkFileExists svc w) = fileContent w"
  by (simp add: checkFileExists_def showErrorMessage_def)

lemma fileContent_showErrorMessage [simp]: "fileContent (showErrorMessage m w) = fileContent w"
  by (simp add: showErrorMessage_def)

lemma trace_showErrorMessage [simp]:
  "trace (showErrorMessage m w) = trace w @ [ShowErrorMessage m]"
  by (simp add: showErrorMessage_def)

lemma fileContent_persistComments_overwrite:
  "fileContent (persistComments d rows True w)
     = Some (join (cleanCsvStorage d rows) (EOL d) @ EOL d)"
  by (simp add: persistComments_def writeFileSync_def Let_def)

lemma trace_persistComments_overwrite:
  "trace (persistComments d rows True w)
     = trace w @ [WriteFile (join (cleanCsvStorage d rows) (EOL d) @ EOL d)]"
  by (simp add: persistComments_def writeFileSync_def Let_def)

lemma fileContent_persistComments_append:
  "fileContent (persistComments d rows False w)
     = Some (case fileContent w of
               None \<Rightarrow> join (cleanCsvStorage d rows) (EOL d) @ EOL d
             | Some old \<Rightarrow> old @ join (cleanCsvStorage d rows) (EOL d) @ EOL d)"
  by (simp add: persistComments_def appendFileSync_def Let_def)

lemma trace_persistComments_append:
  "trace (persistComments d rows False w)
     = trace w @ [AppendFile (join (cleanCsvStorage d rows) (EOL d) @ EOL d)]"
  by (simp add: persistComments_def appendFileSync_def Let_def)

lemma getSelectedLines_selected:
  "selection e = Some s \<Longrightarrow>
     getSelectedLines d c (Some e) False w
       = (True, c\<lparr>lines := getSelectionStringDefinition d e\<rparr>, w)"
  by (simp add: getSelectedLines_def)

lemma getSelectedLines_ignored:
  "\<not> hasSelection d editor \<Longrightarrow> getSelectedLines d c editor True w = (True, c, w)"
  by (simp add: getSelectedLines_def)

lemma getSelectedLines_frame:
  assumes "getSelectedLines d c editor ignoreIfNone w = (ok, c1, w1)"
  shows "filename c1 = filename c" and "entry_id c1 = entry_id c"
    and "fileContent w1 = fileContent w"
    and "ok \<Longrightarrow> w1 = w"
  using assms
  by (auto simp: getSelectedLines_def split: if_splits option.splits)

lemma addComment_selected:
  assumes "selection e = Some s"
  shows "addComment d svc c (Some e) w =
           (let c2 = c\<lparr>lines := getSelectionStringDefinition d e,
                       filename := replace (fileName e) (workspaceRoot svc) []\<rparr>
            in (Returned, c2,
                persistComments d [buildCsvString d svc c2] False (checkFileExists svc w)))"
  using assms by (simp add: addComment_def getSelectedLines_selected Let_def)

lemma deleteComment_missing:
  assumes "fileContent w = None"
  shows "deleteComment d svc entry w =
           (Thrown ENOENT,
            w\<lparr>trace := trace w
                 @ [ShowErrorMessage (FileDoesNotExist (reviewFile svc)), ReadFile]\<rparr>)"
  using assms
  by (simp add: deleteComment_def readFileSync_def checkFileExists_missing Let_def)

lemma deleteComment_present:
  assumes "fileContent w = Some old"
  shows "deleteComment d svc entry w =
           (let rows = split old (EOL d);
                textEscaped =
                  escapeEndOfLineForCsv d (escapeDoubleQuotesForCsv d (text_entry entry));
                updateRowIndex =
                  findIndex
                    (\<lambda>row. includes_str row (label entry) \<and> includes_str row textEscaped) rows;
                w2 = w\<lparr>trace := trace w @ [ReadFile]\<rparr>
            in if 0 \<le> updateRowIndex
               then (Returned, persistComments d (splice1 (nat updateRowIndex) rows) True w2)
               else (Returned,
                     showErrorMessage (CannotDeleteComment (label entry) (reviewFile svc)) w2))"
  using assms
  by (simp add: deleteComment_def readFileSync_def checkFileExists_present Let_def)

lemma updateComment_read:
  assumes "getSelectedLines d c editor True (checkFileExists svc w) = (True, c1, w2)"
    and "getCsvFileLinesAsArray d (fileContent w) = Inr rows"
  shows "updateComment d svc c editor w =
           (let w3 = (checkFileExists svc w)\<lparr>trace := trace (checkFileExists svc w) @ [ReadFile]\<rparr>;
                byId = findIndex (\<lambda>row. includes_str row (entry_id c)) rows;
                updateRowIndex =
                  (if byId < 0
                   then findIndex
                          (\<lambda>row. includes_str row (filename c) \<and> includes_str row (lines c)) rows
                   else byId)
            in if updateRowIndex < 0
               then (Returned, c1,
                     showErrorMessage
                       (CannotFindLineDefinition (lines c1) (filename c) (reviewFile svc)) w3)
               else (Returned, c1,
                     persistComments d (rows[nat updateRowIndex := buildCsvString d svc c1])
                       True w3))"
proof -
  have w2: "w2 = checkFileExists svc w"
    and fn: "filename c1 = filename c" and id: "entry_id c1 = entry_id c"
    using getSelectedLines_frame [OF assms(1)] by simp_all
  show ?thesis
    using assms by (simp add: updateComment_def Let_def w2 fn id)
qed

section \<open>The file-existence guard\<close>

text \<open>
  C1. The claim is that an operation on a missing review file stops after the error
  message, before it reads or writes the file. The theorem states what the code does on
  a missing file instead: \<^verbatim>\<open>addComment\<close> with a selection shows the message and
  then appends the new row, which creates the file; \<^verbatim>\<open>deleteComment\<close> shows the
  message and then reads the file, which throws \<^verbatim>\<open>ENOENT\<close>.
\<close>

theorem missing_file_is_not_guarded:
  assumes "fileContent w = None" and "selection e = Some s"
  shows "(case addComment d svc c (Some e) w of
            (out, c', w') \<Rightarrow>
              out = Returned
              \<and> fileContent w'
                  = Some (join (cleanCsvStorage d [buildCsvString d svc c']) (EOL d) @ EOL d)
              \<and> trace w'
                  = trace w
                      @ [ShowErrorMessage (FileDoesNotExist (reviewFile svc)),
                         AppendFile
                           (join (cleanCsvStorage d [buildCsvString d svc c']) (EOL d)
                              @ EOL d)])
         \<and> deleteComment d svc entry w
             = (Thrown ENOENT,
                w\<lparr>trace := trace w
                     @ [ShowErrorMessage (FileDoesNotExist (reviewFile svc)), ReadFile]\<rparr>)"
proof -
  have "fileContent (checkFileExists svc w) = None"
    using assms(1) by simp
  moreover have "trace (checkFileExists svc w)
                   = trace w @ [ShowErrorMessage (FileDoesNotExist (reviewFile svc))]"
    using assms(1) by (simp add: checkFileExists_missing)
  ultimately show ?thesis
    using assms
    by (simp add: addComment_selected deleteComment_missing Let_def
        fileContent_persistComments_append trace_persistComments_append)
qed

lemma example_row:
  "buildCsvString (spec_collaborators [] [] None) example_service example_entry
     = '',/src/x.ts,,5-10,'' @ quoted ''T'' @ '','' @ quoted ''hi'' @ '',1,,'' @ quoted []
         @ '',id-1''"
  by (simp add: buildCsvString_def spec_collaborators_def example_service_def
      example_entry_def formatAsCsvLine_spec_def quoted_def remoteUrl_def toString_def
      digits.simps)

lemma example_selection_definition:
  "getSelectionStringDefinition (spec_collaborators [] [] None) example_editor = ''5-10''"
  by (simp add: spec_collaborators_def getSelectionStringDefinition_spec_def
      example_editor_def toString_def digits.simps)

lemma example_relative_name:
  "replace (fileName example_editor) (workspaceRoot example_service) [] = ''/src/x.ts''"
  by (simp add: replace_def example_editor_def example_service_def)

theorem missing_file_is_not_guarded_witness:
  "fileContent
     (snd (snd (addComment (spec_collaborators [] [] None) example_service
                  (example_entry\<lparr>filename := [], lines := []\<rparr>)
                  (Some example_editor) missing_file)))
     = Some ('',/src/x.ts,,5-10,'' @ quoted ''T'' @ '','' @ quoted ''hi'' @ '',1,,''
               @ quoted [] @ '',id-1'' @ [CHR 0x0A])
   \<and> deleteComment (spec_collaborators [] [] None) example_service
       \<lparr>label = ''T'', text_entry = ''hi''\<rparr> missing_file
     = (Thrown ENOENT,
        \<lparr>fileContent = None,
         trace = [ShowErrorMessage (FileDoesNotExist ''review.csv''), ReadFile]\<rparr>)"
proof -
  let ?d = "spec_collaborators [] [] None"
  let ?c = "example_entry\<lparr>filename := [], lines := []\<rparr>"
  have missing: "fileContent missing_file = None"
    by (simp add: missing_file_def)
  have selected: "selection example_editor
                    = Some \<lparr>sel_start = \<lparr>line = 5, character = 0\<rparr>,
                            sel_end = \<lparr>line = 10, character = 2\<rparr>\<rparr>"
    by (simp add: example_editor_def)
  have entry: "fst (snd (addComment ?d example_service ?c (Some example_editor) missing_file))
                 = example_entry"
    by (simp add: addComment_selected [OF selected] Let_def example_selection_definition
        example_relative_name example_entry_def)
  have clean: "cleanCsvStorage ?d = cleanCsvStorage_spec" and eol: "EOL ?d = [CHR 0x0A]"
    by (simp_all add: spec_collaborators_def)
  note th = missing_file_is_not_guarded [OF missing selected, of ?d example_service ?c
      "\<lparr>label = ''T'', text_entry = ''hi''\<rparr>"]
  from th have "fileContent
       (snd (snd (addComment ?d example_service ?c (Some example_editor) missing_file)))
       = Some (join (cleanCsvStorage ?d
                 [buildCsvString ?d example_service
                    (fst (snd (addComment ?d example_service ?c (Some example_editor)
                                 missing_file)))]) (EOL ?d) @ EOL ?d)"
    by (simp add: case_prod_unfold)
  then have added: "fileContent
       (snd (snd (addComment ?d example_service ?c (Some example_editor) missing_file)))
       = Some ('',/src/x.ts,,5-10,'' @ quoted ''T'' @ '','' @ quoted ''hi'' @ '',1,,''
                 @ quoted [] @ '',id-1'' @ [CHR 0x0A])"
    unfolding entry example_row clean eol
    by (simp add: cleanCsvStorage_spec_def quoted_def)
  from th have deleted: "deleteComment ?d example_service
       \<lparr>label = ''T'', text_entry = ''hi''\<rparr> missing_file
     = (Thrown ENOENT,
        \<lparr>fileContent = None,
         trace = [ShowErrorMessage (FileDoesNotExist ''review.csv''), ReadFile]\<rparr>)"
    by (simp add: missing_file_def example_service_def)
  from added deleted show ?thesis by simp
qed

section \<open>Updating without a new selection\<close>

text \<open>
  C8. \<^verbatim>\<open>updateComment\<close> always asks \<^verbatim>\<open>getSelectedLines\<close> to ignore an empty
  selection. When the editor has no selection, the step succeeds and leaves the entry as
  it is, so the entry that \<^verbatim>\<open>updateComment\<close> leaves behind is the one it was given,
  with the same \<^verbatim>\<open>lines\<close>; no "select again" message is shown, and when the rows
  are read and a row contains the entry's identifier, that row is replaced by the
  serialization of the unchanged entry and the file is rewritten.
\<close>

theorem updateComment_keeps_lines_without_selection:
  assumes "\<not> hasSelection d editor"
  shows "getSelectedLines d c editor True w = (True, c, w)
         \<and> (case updateComment d svc c editor w of
               (out, c', w') \<Rightarrow>
                 lines c' = lines c \<and> c' = c
                 \<and> ShowErrorMessage SelectAgain \<notin> set (drop (length (trace w)) (trace w')))
         \<and> (getCsvFileLinesAsArray d (fileContent w) = Inr rows
              \<and> 0 \<le> findIndex (\<lambda>row. includes_str row (entry_id c)) rows
            \<longrightarrow> updateComment d svc c editor w
                  = (Returned, c,
                     persistComments d
                       (rows[nat (findIndex (\<lambda>row. includes_str row (entry_id c)) rows)
                               := buildCsvString d svc c])
                       True
                       ((checkFileExists svc w)
                          \<lparr>trace := trace (checkFileExists svc w) @ [ReadFile]\<rparr>)))"
proof (intro conjI impI)
  show sel: "getSelectedLines d c editor True w = (True, c, w)"
    using assms by (rule getSelectedLines_ignored)
  have sel': "getSelectedLines d c editor True (checkFileExists svc w)
                = (True, c, checkFileExists svc w)"
    using assms by (rule getSelectedLines_ignored)
  have tr: "trace (checkFileExists svc w) = trace w
            \<or> trace (checkFileExists svc w)
                = trace w @ [ShowErrorMessage (FileDoesNotExist (reviewFile svc))]"
    by (simp add: checkFileExists_def)
  show "case updateComment d svc c editor w of
          (out, c', w') \<Rightarrow>
            lines c' = lines c \<and> c' = c
            \<and> ShowErrorMessage SelectAgain \<notin> set (drop (length (trace w)) (trace w'))"
  proof (cases "getCsvFileLinesAsArray d (fileContent w)")
    case (Inl e)
    then show ?thesis
      using tr by (auto simp: updateComment_def sel' Let_def)
  next
    case (Inr rows')
    show ?thesis
      using tr
      by (auto simp: updateComment_read [OF sel' Inr] Let_def
          trace_persistComments_overwrite)
  qed
  assume "getCsvFileLinesAsArray d (fileContent w) = Inr rows
          \<and> 0 \<le> findIndex (\<lambda>row. includes_str row (entry_id c)) rows"
  then show "updateComment d svc c editor w
               = (Returned, c,
                  persistComments d
                    (rows[nat (findIndex (\<lambda>row. includes_str row (entry_id c)) rows)
                            := buildCsvString d svc c])
                    True
                    ((checkFileExists svc w)
                       \<lparr>trace := trace (checkFileExists svc w) @ [ReadFile]\<rparr>))"
    by (simp add: updateComment_read [OF sel'] Let_def)
qed

lemmas spec_simps =
  spec_collaborators_def removeTrailingSlash_spec_def removeLeadingAndTrailingSlash_spec_def
  getSelectionStringDefinition_spec_def hasSelection_spec_def cleanCsvStorage_spec_def
  getCsvFileLinesAsArray_spec_def formatAsCsvLine_spec_def quoted_def
  startLineNumberFromStringDefinition_spec_def endLineNumberFromStringDefinition_spec_def
  parseLineNumber_def digitValue_def toString_def digits.simps

lemma stored_rows:
  "split (''/src/a.ts,1-2,id-0'' @ [CHR 0x0A] @ ''/src/x.ts,5-10,id-1'' @ [CHR 0x0A])
     [CHR 0x0A]
   = [''/src/a.ts,1-2,id-0'', ''/src/x.ts,5-10,id-1'', []]"
  by (simp add: split_def)

lemma stored_file_read:
  "getCsvFileLinesAsArray (spec_collaborators custom base commit) (fileContent stored_file)
     = Inr [''/src/a.ts,1-2,id-0'', ''/src/x.ts,5-10,id-1'', []]"
  using stored_rows by (simp add: spec_collaborators_def getCsvFileLinesAsArray_spec_def
      stored_file_def)

lemma stored_file_exists: "checkFileExists svc stored_file = stored_file"
  by (simp add: checkFileExists_def existsSync_def stored_file_def)

theorem updateComment_keeps_lines_without_selection_witness:
  "\<not> hasSelection (spec_collaborators [] [] None) (Some example_editor_no_selection)
   \<and> fst (snd (updateComment (spec_collaborators [] [] None) example_service
                  (example_entry\<lparr>comment := ''changed''\<rparr>)
                  (Some example_editor_no_selection) stored_file))
     = example_entry\<lparr>comment := ''changed''\<rparr>
   \<and> fileContent
       (snd (snd (updateComment (spec_collaborators [] [] None) example_service
                    (example_entry\<lparr>comment := ''changed''\<rparr>)
                    (Some example_editor_no_selection) stored_file)))
     = Some (''/src/a.ts,1-2,id-0'' @ [CHR 0x0A]
               @ '',/src/x.ts,,5-10,'' @ quoted ''T'' @ '','' @ quoted ''changed''
               @ '',1,,'' @ quoted [] @ '',id-1'' @ [CHR 0x0A])"
proof -
  let ?d = "spec_collaborators [] [] None"
  let ?c = "example_entry\<lparr>comment := ''changed''\<rparr>"
  let ?rows = "[''/src/a.ts,1-2,id-0'', ''/src/x.ts,5-10,id-1'', []]"
  have none: "\<not> hasSelection ?d (Some example_editor_no_selection)"
    by (simp add: spec_collaborators_def hasSelection_spec_def
        example_editor_no_selection_def)
  note th = updateComment_keeps_lines_without_selection [OF none, of ?c stored_file
      example_service ?rows]
  have id: "entry_id ?c = ''id-1''"
    by (simp add: example_entry_def)
  have found: "findIndex (\<lambda>row. includes_str row (entry_id ?c)) ?rows = 1"
    unfolding id by simp
  have row: "buildCsvString ?d example_service ?c
               = '',/src/x.ts,,5-10,'' @ quoted ''T'' @ '','' @ quoted ''changed''
                   @ '',1,,'' @ quoted [] @ '',id-1''"
    by (simp add: buildCsvString_def example_service_def example_entry_def remoteUrl_def
        spec_simps)
  from th have kept: "fst (snd (updateComment ?d example_service ?c
                                  (Some example_editor_no_selection) stored_file)) = ?c"
    by (simp add: case_prod_unfold)
  from th stored_file_read [of "[]" "[]" None] found
  have "updateComment ?d example_service ?c (Some example_editor_no_selection) stored_file
          = (Returned, ?c,
             persistComments ?d (?rows[nat 1 := buildCsvString ?d example_service ?c]) True
               ((checkFileExists example_service stored_file)
                  \<lparr>trace := trace (checkFileExists example_service stored_file)
                             @ [ReadFile]\<rparr>))"
    by simp
  then have "fileContent (snd (snd (updateComment ?d example_service ?c
                                      (Some example_editor_no_selection) stored_file)))
               = Some (join (cleanCsvStorage ?d
                               (?rows[nat 1 := buildCsvString ?d example_service ?c]))
                         (EOL ?d) @ EOL ?d)"
    by (simp add: fileContent_persistComments_overwrite)
  then have written: "fileContent (snd (snd (updateComment ?d example_service ?c
                                      (Some example_editor_no_selection) stored_file)))
               = Some (''/src/a.ts,1-2,id-0'' @ [CHR 0x0A]
                         @ '',/src/x.ts,,5-10,'' @ quoted ''T'' @ '','' @ quoted ''changed''
                         @ '',1,,'' @ quoted [] @ '',id-1'' @ [CHR 0x0A])"
    unfolding row by (simp add: spec_collaborators_def cleanCsvStorage_spec_def quoted_def)
  from none kept written show ?thesis by simp
qed

section \<open>Locating the row to update\<close>

lemma findIndex_found:
  assumes "\<exists>x \<in> set xs. p x"
  shows "\<exists>i < length xs. findIndex p xs = int i \<and> p (xs ! i) \<and> (\<forall>j < i. \<not> p (xs ! j))"
proof -
  have "\<not> findIndex p xs < 0"
    using assms by (simp add: findIndex_neg_iff)
  then have pos: "0 \<le> findIndex p xs" by simp
  from findIndex_first [OF pos] pos show ?thesis
    by (intro exI [of _ "nat (findIndex p xs)"]) simp
qed

text \<open>
  C3. After the selection step has succeeded and the rows have been read,
  \<^verbatim>\<open>updateComment\<close> replaces the first row that contains the entry's identifier.
  When no row contains the identifier, it replaces the first row that contains both the
  entry's file name and the \<^verbatim>\<open>lines\<close> value the entry had before the selection
  step. When no row matches either way, it shows the error message, nothing is written
  and the file is as it was. \<open>c\<close> is the entry as given, \<open>c1\<close> the entry after the
  selection step.
\<close>

theorem updateComment_lookup:
  assumes "getSelectedLines d c editor True (checkFileExists svc w) = (True, c1, w2)"
    and "getCsvFileLinesAsArray d (fileContent w) = Inr rows"
  shows
    "((\<exists>row \<in> set rows. includes_str row (entry_id c)) \<longrightarrow>
        (\<exists>i < length rows.
           includes_str (rows ! i) (entry_id c)
           \<and> (\<forall>j < i. \<not> includes_str (rows ! j) (entry_id c))
           \<and> updateComment d svc c editor w
               = (Returned, c1,
                  persistComments d (rows[i := buildCsvString d svc c1]) True
                    ((checkFileExists svc w)
                       \<lparr>trace := trace (checkFileExists svc w) @ [ReadFile]\<rparr>))))
     \<and> ((\<forall>row \<in> set rows. \<not> includes_str row (entry_id c))
         \<and> (\<exists>row \<in> set rows. includes_str row (filename c) \<and> includes_str row (lines c))
        \<longrightarrow>
        (\<exists>i < length rows.
           includes_str (rows ! i) (filename c) \<and> includes_str (rows ! i) (lines c)
           \<and> (\<forall>j < i. \<not> (includes_str (rows ! j) (filename c)
                          \<and> includes_str (rows ! j) (lines c)))
           \<and> updateComment d svc c editor w
               = (Returned, c1,
                  persistComments d (rows[i := buildCsvString d svc c1]) True
                    ((checkFileExists svc w)
                       \<lparr>trace := trace (checkFileExists svc w) @ [ReadFile]\<rparr>))))
     \<and> ((\<forall>row \<in> set rows. \<not> includes_str row (entry_id c))
         \<and> (\<forall>row \<in> set rows. \<not> (includes_str row (filename c)
                                  \<and> includes_str row (lines c)))
        \<longrightarrow>
        fileContent (snd (snd (updateComment d svc c editor w))) = fileContent w
        \<and> trace (snd (snd (updateComment d svc c editor w)))
            = trace (checkFileExists svc w)
                @ [ReadFile,
                   ShowErrorMessage
                     (CannotFindLineDefinition (lines c1) (filename c) (reviewFile svc))])"
proof (intro conjI impI)
  note upd = updateComment_read [OF assms]
  let ?byId = "\<lambda>row. includes_str row (entry_id c)"
  let ?fallBack = "\<lambda>row. includes_str row (filename c) \<and> includes_str row (lines c)"
  {
    assume "\<exists>row \<in> set rows. ?byId row"
    then obtain i where i: "i < length rows" "findIndex ?byId rows = int i" "?byId (rows ! i)"
      "\<forall>j < i. \<not> ?byId (rows ! j)"
      using findIndex_found [of rows ?byId] by blast
    have "updateComment d svc c editor w
            = (Returned, c1,
               persistComments d (rows[i := buildCsvString d svc c1]) True
                 ((checkFileExists svc w)
                    \<lparr>trace := trace (checkFileExists svc w) @ [ReadFile]\<rparr>))"
      unfolding upd by (simp add: Let_def i(2))
    with i show "\<exists>i < length rows.
           includes_str (rows ! i) (entry_id c)
           \<and> (\<forall>j < i. \<not> includes_str (rows ! j) (entry_id c))
           \<and> updateComment d svc c editor w
               = (Returned, c1,
                  persistComments d (rows[i := buildCsvString d svc c1]) True
                    ((checkFileExists svc w)
                       \<lparr>trace := trace (checkFileExists svc w) @ [ReadFile]\<rparr>))"
      by blast
  }
  {
    assume a: "(\<forall>row \<in> set rows. \<not> ?byId row) \<and> (\<exists>row \<in> set rows. ?fallBack row)"
    then have neg: "findIndex ?byId rows < 0"
      by (simp add: findIndex_neg_iff)
    from a obtain i where i: "i < length rows" "findIndex ?fallBack rows = int i"
      "?fallBack (rows ! i)" "\<forall>j < i. \<not> ?fallBack (rows ! j)"
      using findIndex_found [of rows ?fallBack] by blast
    have "updateComment d svc c editor w
            = (Returned, c1,
               persistComments d (rows[i := buildCsvString d svc c1]) True
                 ((checkFileExists svc w)
                    \<lparr>trace := trace (checkFileExists svc w) @ [ReadFile]\<rparr>))"
      unfolding upd using neg by (simp add: Let_def i(2))
    with i show "\<exists>i < length rows.
           includes_str (rows ! i) (filename c) \<and> includes_str (rows ! i) (lines c)
           \<and> (\<forall>j < i. \<not> (includes_str (rows ! j) (filename c)
                          \<and> includes_str (rows ! j) (lines c)))
           \<and> updateComment d svc c editor w
               = (Returned, c1,
                  persistComments d (rows[i := buildCsvString d svc c1]) True
                    ((checkFileExists svc w)
                       \<lparr>trace := trace (checkFileExists svc w) @ [ReadFile]\<rparr>))"
      by blast
  }
  {
    assume a: "(\<forall>row \<in> set rows. \<not> ?byId row) \<and> (\<forall>row \<in> set rows. \<not> ?fallBack row)"
    then have neg: "findIndex ?byId rows < 0" "findIndex ?fallBack rows < 0"
      by (simp_all add: findIndex_neg_iff)
    show "fileContent (snd (snd (updateComment d svc c editor w))) = fileContent w"
      unfolding upd using neg by (simp add: Let_def)
    show "trace (snd (snd (updateComment d svc c editor w)))
            = trace (checkFileExists svc w)
                @ [ReadFile,
                   ShowErrorMessage
                     (CannotFindLineDefinition (lines c1) (filename c) (reviewFile svc))]"
      unfolding upd using neg by (simp add: Let_def)
  }
qed

lemma example_editor_selected:
  "getSelectedLines (spec_collaborators [] [] None) c (Some example_editor) True w
     = (True, c\<lparr>lines := ''5-10''\<rparr>, w)"
  by (simp add: getSelectedLines_def example_editor_def spec_simps)

lemma index_below_3: "i < 3 \<Longrightarrow> i = 0 \<or> i = 1 \<or> i = (2::nat)"
  by arith

theorem updateComment_lookup_witness:
  "fileContent
     (snd (snd (updateComment (spec_collaborators [] [] None) example_service example_entry
                  (Some example_editor) stored_file)))
     = Some (''/src/a.ts,1-2,id-0'' @ [CHR 0x0A]
               @ '',/src/x.ts,,5-10,'' @ quoted ''T'' @ '','' @ quoted ''hi'' @ '',1,,''
               @ quoted [] @ '',id-1'' @ [CHR 0x0A])
   \<and> fileContent
       (snd (snd (updateComment (spec_collaborators [] [] None) example_service
                    (example_entry\<lparr>entry_id := ''id-9'', filename := ''/src/a.ts'',
                                   lines := ''1-2''\<rparr>)
                    (Some example_editor) stored_file)))
     = Some ('',/src/a.ts,,5-10,'' @ quoted ''T'' @ '','' @ quoted ''hi'' @ '',1,,''
               @ quoted [] @ '',id-9'' @ [CHR 0x0A]
               @ ''/src/x.ts,5-10,id-1'' @ [CHR 0x0A])
   \<and> fileContent
       (snd (snd (updateComment (spec_collaborators [] [] None) example_service
                    (example_entry\<lparr>entry_id := ''id-9'', filename := ''/src/zz.ts''\<rparr>)
                    (Some example_editor) stored_file)))
     = fileContent stored_file
   \<and> trace
       (snd (snd (updateComment (spec_collaborators [] [] None) example_service
                    (example_entry\<lparr>entry_id := ''id-9'', filename := ''/src/zz.ts''\<rparr>)
                    (Some example_editor) stored_file)))
     = [ReadFile,
        ShowErrorMessage (CannotFindLineDefinition ''5-10'' ''/src/zz.ts'' ''review.csv'')]"
proof -
  let ?d = "spec_collaborators [] [] None"
  let ?rows = "[''/src/a.ts,1-2,id-0'', ''/src/x.ts,5-10,id-1'', []]"
  let ?w3 = "(checkFileExists example_service stored_file)
               \<lparr>trace := trace (checkFileExists example_service stored_file) @ [ReadFile]\<rparr>"
  let ?cA = "example_entry"
  let ?cB = "example_entry\<lparr>entry_id := ''id-9'', filename := ''/src/a.ts'', lines := ''1-2''\<rparr>"
  let ?cC = "example_entry\<lparr>entry_id := ''id-9'', filename := ''/src/zz.ts''\<rparr>"
  have read: "getCsvFileLinesAsArray ?d (fileContent stored_file) = Inr ?rows"
    by (rule stored_file_read)
  have clean: "cleanCsvStorage ?d = cleanCsvStorage_spec" and eol: "EOL ?d = [CHR 0x0A]"
    by (simp_all add: spec_collaborators_def)

  have selA: "getSelectedLines ?d ?cA (Some example_editor) True
                (checkFileExists example_service stored_file)
              = (True, ?cA\<lparr>lines := ''5-10''\<rparr>, checkFileExists example_service stored_file)"
    by (rule example_editor_selected)
  have rowA: "buildCsvString ?d example_service (?cA\<lparr>lines := ''5-10''\<rparr>)
                = '',/src/x.ts,,5-10,'' @ quoted ''T'' @ '','' @ quoted ''hi'' @ '',1,,''
                    @ quoted [] @ '',id-1''"
    by (simp add: buildCsvString_def example_service_def example_entry_def remoteUrl_def
        spec_simps)
  have "\<exists>row \<in> set ?rows. includes_str row (entry_id ?cA)"
    by (simp add: example_entry_def)
  with updateComment_lookup [OF selA read]
  obtain i where i: "i < length ?rows" "includes_str (?rows ! i) (entry_id ?cA)"
      "\<forall>j < i. \<not> includes_str (?rows ! j) (entry_id ?cA)"
    and updA: "updateComment ?d example_service ?cA (Some example_editor) stored_file
                 = (Returned, ?cA\<lparr>lines := ''5-10''\<rparr>,
                    persistComments ?d
                      (?rows[i := buildCsvString ?d example_service (?cA\<lparr>lines := ''5-10''\<rparr>)])
                      True ?w3)"
    by blast
  have "i = 1"
    using i index_below_3 [of i] by (auto simp: example_entry_def)
  with updA have A: "fileContent
       (snd (snd (updateComment ?d example_service ?cA (Some example_editor) stored_file)))
       = Some (''/src/a.ts,1-2,id-0'' @ [CHR 0x0A]
                 @ '',/src/x.ts,,5-10,'' @ quoted ''T'' @ '','' @ quoted ''hi'' @ '',1,,''
                 @ quoted [] @ '',id-1'' @ [CHR 0x0A])"
    unfolding rowA
    by (simp add: fileContent_persistComments_overwrite clean eol cleanCsvStorage_spec_def
        quoted_def)

  have selB: "getSelectedLines ?d ?cB (Some example_editor) True
                (checkFileExists example_service stored_file)
              = (True, ?cB\<lparr>lines := ''5-10''\<rparr>, checkFileExists example_service stored_file)"
    by (rule example_editor_selected)
  have rowB: "buildCsvString ?d example_service (?cB\<lparr>lines := ''5-10''\<rparr>)
                = '',/src/a.ts,,5-10,'' @ quoted ''T'' @ '','' @ quoted ''hi'' @ '',1,,''
                    @ quoted [] @ '',id-9''"
    by (simp add: buildCsvString_def example_service_def example_entry_def remoteUrl_def
        spec_simps)
  have "(\<forall>row \<in> set ?rows. \<not> includes_str row (entry_id ?cB))
        \<and> (\<exists>row \<in> set ?rows. includes_str row (filename ?cB) \<and> includes_str row (lines ?cB))"
    by (simp add: example_entry_def)
  with updateComment_lookup [OF selB read]
  obtain k where k: "k < length ?rows"
      "includes_str (?rows ! k) (filename ?cB) \<and> includes_str (?rows ! k) (lines ?cB)"
    and updB: "updateComment ?d example_service ?cB (Some example_editor) stored_file
                 = (Returned, ?cB\<lparr>lines := ''5-10''\<rparr>,
                    persistComments ?d
                      (?rows[k := buildCsvString ?d example_service (?cB\<lparr>lines := ''5-10''\<rparr>)])
                      True ?w3)"
    by blast
  have "k = 0"
    using k index_below_3 [of k] by (auto simp: example_entry_def)
  with updB have B: "fileContent
       (snd (snd (updateComment ?d example_service ?cB (Some example_editor) stored_file)))
       = Some ('',/src/a.ts,,5-10,'' @ quoted ''T'' @ '','' @ quoted ''hi'' @ '',1,,''
                 @ quoted [] @ '',id-9'' @ [CHR 0x0A]
                 @ ''/src/x.ts,5-10,id-1'' @ [CHR 0x0A])"
    unfolding rowB
    by (simp add: fileContent_persistComments_overwrite clean eol cleanCsvStorage_spec_def
        quoted_def)

  have selC: "getSelectedLines ?d ?cC (Some example_editor) True
                (checkFileExists example_service stored_file)
              = (True, ?cC\<lparr>lines := ''5-10''\<rparr>, checkFileExists example_service stored_file)"
    by (rule example_editor_selected)
  have "(\<forall>row \<in> set ?rows. \<not> includes_str row (entry_id ?cC))
        \<and> (\<forall>row \<in> set ?rows. \<not> (includes_str row (filename ?cC)
                                   \<and> includes_str row (lines ?cC)))"
    by (simp add: example_entry_def)
  with updateComment_lookup [OF selC read]
  have C: "fileContent
       (snd (snd (updateComment ?d example_service ?cC (Some example_editor) stored_file)))
       = fileContent stored_file"
    and C': "trace
       (snd (snd (updateComment ?d example_service ?cC (Some example_editor) stored_file)))
       = trace (checkFileExists example_service stored_file)
           @ [ReadFile,
              ShowErrorMessage
                (CannotFindLineDefinition (lines (?cC\<lparr>lines := ''5-10''\<rparr>)) (filename ?cC)
                   (reviewFile example_service))]"
    by blast+
  from C' have C'': "trace
       (snd (snd (updateComment ?d example_service ?cC (Some example_editor) stored_file)))
       = [ReadFile,
          ShowErrorMessage (CannotFindLineDefinition ''5-10'' ''/src/zz.ts'' ''review.csv'')]"
    unfolding stored_file_exists by (simp add: stored_file_def example_service_def)
  from A B C C'' show ?thesis by simp
qed

section \<open>Deleting a row\<close>

lemma splice1_length: "i < length xs \<Longrightarrow> length (splice1 i xs) + 1 = length xs"
  by (simp add: splice1_def)

lemma splice1_nth_before: "j < i \<Longrightarrow> i < length xs \<Longrightarrow> splice1 i xs ! j = xs ! j"
  by (simp add: splice1_def nth_append)

lemma splice1_nth_after:
  "i \<le> j \<Longrightarrow> Suc j < length xs \<Longrightarrow> splice1 i xs ! j = xs ! Suc j"
  by (simp add: splice1_def nth_append min_def)

lemma filter_splice1:
  assumes "i < length xs"
  shows "filter p (splice1 i xs) = filter p (take i xs) @ filter p (drop (Suc i) xs)"
    and "p (xs ! i) \<Longrightarrow>
           filter p xs = filter p (take i xs) @ [xs ! i] @ filter p (drop (Suc i) xs)"
proof -
  show "filter p (splice1 i xs) = filter p (take i xs) @ filter p (drop (Suc i) xs)"
    by (simp add: splice1_def)
  assume "p (xs ! i)"
  moreover have "xs = take i xs @ xs ! i # drop (Suc i) xs"
    using assms by (simp add: id_take_nth_drop)
  then have "filter p xs = filter p (take i xs @ xs ! i # drop (Suc i) xs)"
    by simp
  ultimately show "filter p xs = filter p (take i xs) @ [xs ! i] @ filter p (drop (Suc i) xs)"
    by simp
qed

text \<open>
  C5. \<^verbatim>\<open>deleteComment\<close> on an existing file splits its content into rows and looks
  for the first row that contains both the label and the escaped text. When no row does,
  it shows the error message and writes nothing: the file and its rows are as they were.
  When a row does, the rows that are persisted are the rows without that one row: one
  row fewer, the rows before it and the rows after it unchanged and in order, and the
  file is rewritten from them. When the normalization of \<^verbatim>\<open>cleanCsvStorage\<close> is the
  removal of empty rows and the matched row is not empty, the rows of the rewritten file
  are the rows of the file without that one row.
\<close>

theorem deleteComment_effect:
  assumes "fileContent w = Some old"
    and "rows = split old (EOL d)"
    and "textEscaped = escapeEndOfLineForCsv d (escapeDoubleQuotesForCsv d (text_entry entry))"
  shows
    "((\<forall>row \<in> set rows. \<not> (includes_str row (label entry) \<and> includes_str row textEscaped))
        \<longrightarrow>
        deleteComment d svc entry w
          = (Returned,
             w\<lparr>trace := trace w
                  @ [ReadFile,
                     ShowErrorMessage (CannotDeleteComment (label entry) (reviewFile svc))]\<rparr>)
        \<and> fileContent (snd (deleteComment d svc entry w)) = Some old)
     \<and> ((\<exists>row \<in> set rows. includes_str row (label entry) \<and> includes_str row textEscaped)
        \<longrightarrow>
        (\<exists>i < length rows.
           includes_str (rows ! i) (label entry) \<and> includes_str (rows ! i) textEscaped
           \<and> (\<forall>j < i. \<not> (includes_str (rows ! j) (label entry)
                          \<and> includes_str (rows ! j) textEscaped))
           \<and> deleteComment d svc entry w
               = (Returned,
                  persistComments d (splice1 i rows) True (w\<lparr>trace := trace w @ [ReadFile]\<rparr>))
           \<and> fileContent (snd (deleteComment d svc entry w))
               = Some (join (cleanCsvStorage d (splice1 i rows)) (EOL d) @ EOL d)
           \<and> splice1 i rows = take i rows @ drop (Suc i) rows
           \<and> length (splice1 i rows) + 1 = length rows
           \<and> (\<forall>j < i. splice1 i rows ! j = rows ! j)
           \<and> (\<forall>j. i \<le> j \<and> Suc j < length rows \<longrightarrow> splice1 i rows ! j = rows ! Suc j)
           \<and> ((\<forall>rs. cleanCsvStorage d rs = filter (\<lambda>row. row \<noteq> []) rs) \<and> rows ! i \<noteq> []
                \<longrightarrow>
                cleanCsvStorage d rows
                  = cleanCsvStorage d (take i rows) @ [rows ! i]
                      @ cleanCsvStorage d (drop (Suc i) rows)
                \<and> cleanCsvStorage d (splice1 i rows)
                    = cleanCsvStorage d (take i rows) @ cleanCsvStorage d (drop (Suc i) rows))))"
proof (intro conjI impI)
  let ?matches = "\<lambda>row. includes_str row (label entry) \<and> includes_str row textEscaped"
  note del = deleteComment_present [OF assms(1), of d svc entry, folded assms(2),
      unfolded Let_def, folded assms(3)]
  {
    assume "\<forall>row \<in> set rows. \<not> ?matches row"
    then have neg: "findIndex ?matches rows < 0"
      by (simp add: findIndex_neg_iff)
    then show "deleteComment d svc entry w
          = (Returned,
             w\<lparr>trace := trace w
                  @ [ReadFile,
                     ShowErrorMessage (CannotDeleteComment (label entry) (reviewFile svc))]\<rparr>)"
      unfolding del by (simp add: showErrorMessage_def)
    then show "fileContent (snd (deleteComment d svc entry w)) = Some old"
      using assms(1) by simp
  }
  {
    assume "\<exists>row \<in> set rows. ?matches row"
    then obtain i where i: "i < length rows" "findIndex ?matches rows = int i"
      "?matches (rows ! i)" "\<forall>j < i. \<not> ?matches (rows ! j)"
      using findIndex_found [of rows ?matches] by blast
    have eq: "deleteComment d svc entry w
               = (Returned,
                  persistComments d (splice1 i rows) True (w\<lparr>trace := trace w @ [ReadFile]\<rparr>))"
      unfolding del by (simp add: i(2))
    have content: "fileContent (snd (deleteComment d svc entry w))
               = Some (join (cleanCsvStorage d (splice1 i rows)) (EOL d) @ EOL d)"
      unfolding eq by (simp add: fileContent_persistComments_overwrite)
    have clean: "(\<forall>rs. cleanCsvStorage d rs = filter (\<lambda>row. row \<noteq> []) rs) \<and> rows ! i \<noteq> []
                \<longrightarrow>
                cleanCsvStorage d rows
                  = cleanCsvStorage d (take i rows) @ [rows ! i]
                      @ cleanCsvStorage d (drop (Suc i) rows)
                \<and> cleanCsvStorage d (splice1 i rows)
                    = cleanCsvStorage d (take i rows) @ cleanCsvStorage d (drop (Suc i) rows)"
      using filter_splice1 [OF i(1), of "\<lambda>row. row \<noteq> []"] by simp
    show "\<exists>i < length rows.
           includes_str (rows ! i) (label entry) \<and> includes_str (rows ! i) textEscaped
           \<and> (\<forall>j < i. \<not> (includes_str (rows ! j) (label entry)
                          \<and> includes_str (rows ! j) textEscaped))
           \<and> deleteComment d svc entry w
               = (Returned,
                  persistComments d (splice1 i rows) True (w\<lparr>trace := trace w @ [ReadFile]\<rparr>))
           \<and> fileContent (snd (deleteComment d svc entry w))
               = Some (join (cleanCsvStorage d (splice1 i rows)) (EOL d) @ EOL d)
           \<and> splice1 i rows = take i rows @ drop (Suc i) rows
           \<and> length (splice1 i rows) + 1 = length rows
           \<and> (\<forall>j < i. splice1 i rows ! j = rows ! j)
           \<and> (\<forall>j. i \<le> j \<and> Suc j < length rows \<longrightarrow> splice1 i rows ! j = rows ! Suc j)
           \<and> ((\<forall>rs. cleanCsvStorage d rs = filter (\<lambda>row. row \<noteq> []) rs) \<and> rows ! i \<noteq> []
                \<longrightarrow>
                cleanCsvStorage d rows
                  = cleanCsvStorage d (take i rows) @ [rows ! i]
                      @ cleanCsvStorage d (drop (Suc i) rows)
                \<and> cleanCsvStorage d (splice1 i rows)
                    = cleanCsvStorage d (take i rows) @ cleanCsvStorage d (drop (Suc i) rows))"
    proof (intro exI [of _ i] conjI)
      show "i < length rows" by (rule i(1))
      show "includes_str (rows ! i) (label entry)" "includes_str (rows ! i) textEscaped"
        using i(3) by simp_all
      show "\<forall>j < i. \<not> (includes_str (rows ! j) (label entry)
                          \<and> includes_str (rows ! j) textEscaped)"
        by (rule i(4))
      show "deleteComment d svc entry w
               = (Returned,
                  persistComments d (splice1 i rows) True (w\<lparr>trace := trace w @ [ReadFile]\<rparr>))"
        by (rule eq)
      show "fileContent (snd (deleteComment d svc entry w))
               = Some (join (cleanCsvStorage d (splice1 i rows)) (EOL d) @ EOL d)"
        by (rule content)
      show "splice1 i rows = take i rows @ drop (Suc i) rows"
        by (simp add: splice1_def)
      show "length (splice1 i rows) + 1 = length rows"
        using i(1) by (rule splice1_length)
      show "\<forall>j < i. splice1 i rows ! j = rows ! j"
        using i(1) by (simp add: splice1_nth_before)
      show "\<forall>j. i \<le> j \<and> Suc j < length rows \<longrightarrow> splice1 i rows ! j = rows ! Suc j"
        by (simp add: splice1_nth_after)
      show "(\<forall>rs. cleanCsvStorage d rs = filter (\<lambda>row. row \<noteq> []) rs) \<and> rows ! i \<noteq> []
                \<longrightarrow>
                cleanCsvStorage d rows
                  = cleanCsvStorage d (take i rows) @ [rows ! i]
                      @ cleanCsvStorage d (drop (Suc i) rows)
                \<and> cleanCsvStorage d (splice1 i rows)
                    = cleanCsvStorage d (take i rows) @ cleanCsvStorage d (drop (Suc i) rows)"
        by (rule clean)
    qed
  }
qed

lemma listed_rows:
  "split (''Naming,rename this,id-0'' @ [CHR 0x0A] @ ''Typo,fix typo,id-1'' @ [CHR 0x0A]
            @ ''Naming,rename this,id-2'' @ [CHR 0x0A]) [CHR 0x0A]
   = [''Naming,rename this,id-0'', ''Typo,fix typo,id-1'', ''Naming,rename this,id-2'', []]"
  by (simp add: split_def)

lemma index_below_4: "i < 4 \<Longrightarrow> i = 0 \<or> i = 1 \<or> i = 2 \<or> i = (3::nat)"
  by arith

theorem deleteComment_effect_witness:
  "fileContent
     (snd (deleteComment (spec_collaborators [] [] None) example_service
             \<lparr>label = ''Typo'', text_entry = ''fix typo''\<rparr> listed_file))
     = Some (''Naming,rename this,id-0'' @ [CHR 0x0A] @ ''Naming,rename this,id-2''
               @ [CHR 0x0A])
   \<and> deleteComment (spec_collaborators [] [] None) example_service
       \<lparr>label = ''Other'', text_entry = ''fix typo''\<rparr> listed_file
     = (Returned,
        listed_file
          \<lparr>trace := [ReadFile, ShowErrorMessage (CannotDeleteComment ''Other'' ''review.csv'')]\<rparr>)"
proof -
  let ?d = "spec_collaborators [] [] None"
  let ?rows = "[''Naming,rename this,id-0'', ''Typo,fix typo,id-1'',
                ''Naming,rename this,id-2'', []]"
  let ?old = "''Naming,rename this,id-0'' @ [CHR 0x0A] @ ''Typo,fix typo,id-1'' @ [CHR 0x0A]
                @ ''Naming,rename this,id-2'' @ [CHR 0x0A]"
  let ?typo = "\<lparr>label = ''Typo'', text_entry = ''fix typo''\<rparr>"
  let ?other = "\<lparr>label = ''Other'', text_entry = ''fix typo''\<rparr>"
  have content: "fileContent listed_file = Some ?old"
    by (simp add: listed_file_def)
  have rows: "?rows = split ?old (EOL ?d)"
    using listed_rows by (simp add: spec_collaborators_def)
  have escaped: "''fix typo''
                   = escapeEndOfLineForCsv ?d (escapeDoubleQuotesForCsv ?d (text_entry ?typo))"
    "''fix typo''
       = escapeEndOfLineForCsv ?d (escapeDoubleQuotesForCsv ?d (text_entry ?other))"
    by (simp_all add: spec_collaborators_def)
  have clean: "cleanCsvStorage ?d = cleanCsvStorage_spec" and eol: "EOL ?d = [CHR 0x0A]"
    by (simp_all add: spec_collaborators_def)

  have "\<exists>row \<in> set ?rows. includes_str row (label ?typo) \<and> includes_str row ''fix typo''"
    by simp
  with deleteComment_effect [OF content rows escaped(1), of example_service]
  obtain i where i: "i < length ?rows"
      "includes_str (?rows ! i) (label ?typo)"
    and written: "fileContent (snd (deleteComment ?d example_service ?typo listed_file))
                    = Some (join (cleanCsvStorage ?d (splice1 i ?rows)) (EOL ?d) @ EOL ?d)"
    by blast
  have "i = 1"
    using i index_below_4 [of i] by auto
  with written have deleted:
    "fileContent (snd (deleteComment ?d example_service ?typo listed_file))
       = Some (''Naming,rename this,id-0'' @ [CHR 0x0A] @ ''Naming,rename this,id-2''
                 @ [CHR 0x0A])"
    by (simp add: clean eol cleanCsvStorage_spec_def splice1_def)

  have "\<forall>row \<in> set ?rows. \<not> (includes_str row (label ?other) \<and> includes_str row ''fix typo'')"
    by simp
  with deleteComment_effect [OF content rows escaped(2), of example_service]
  have "deleteComment ?d example_service ?other listed_file
          = (Returned,
             listed_file
               \<lparr>trace := trace listed_file
                    @ [ReadFile,
                       ShowErrorMessage
                         (CannotDeleteComment (label ?other) (reviewFile example_service))]\<rparr>)"
    by blast
  then have refused: "deleteComment ?d example_service ?other listed_file
      = (Returned,
         listed_file
           \<lparr>trace := [ReadFile, ShowErrorMessage (CannotDeleteComment ''Other'' ''review.csv'')]\<rparr>)"
    by (simp add: listed_file_def example_service_def)
  from deleted refused show ?thesis by simp
qed


lemma sublist_extend: "sublist r s \<Longrightarrow> sublist r (ps @ s @ ss)"
proof -
  assume "sublist r s"
  then obtain a b where "s = a @ r @ b"
    by (auto simp: sublist_def)
  then have "ps @ s @ ss = (ps @ a) @ r @ (b @ ss)" by simp
  then show ?thesis
    unfolding sublist_def by blast
qed

lemma sublist_join: "r \<in> set rs \<Longrightarrow> sublist r (join rs sep)"
proof (induction rs sep rule: join.induct)
  case (1 sep)
  then show ?case by simp
next
  case (2 r' sep)
  then show ?case by simp
next
  case (3 r1 r2 rs sep)
  show ?case
  proof (cases "r = r1")
    case True
    then show ?thesis by simp
  next
    case False
    with 3 have "sublist r (join (r2 # rs) sep)" by simp
    then have "sublist r ((r1 @ sep) @ join (r2 # rs) sep @ [])"
      by (rule sublist_extend)
    then show ?thesis by simp
  qed
qed




section \<open>What is written to the review file\<close>

lemma trace_checkFileExists_cases:
  "trace (checkFileExists svc w) = trace w
   \<or> trace (checkFileExists svc w)
       = trace w @ [ShowErrorMessage (FileDoesNotExist (reviewFile svc))]"
  by (simp add: checkFileExists_def)

lemma getSelectedLines_trace:
  assumes "getSelectedLines d c editor ignoreIfNone w = (ok, c1, w1)"
  shows "trace w1 = trace w \<or> trace w1 = trace w @ [ShowErrorMessage SelectAgain]"
  using assms
  by (auto simp: getSelectedLines_def split: if_splits option.splits)

lemma persistComments_trace:
  "trace (persistComments d rows overwrite w)
     = trace w
         @ [(if overwrite then WriteFile else AppendFile)
              (join (cleanCsvStorage d rows) (EOL d) @ EOL d)]"
  by (cases overwrite) (simp_all add: trace_persistComments_overwrite
      trace_persistComments_append)

lemma addComment_writes:
  assumes "WriteFile x \<in> set (trace (snd (snd (addComment d svc c editor w))))
           \<or> AppendFile x \<in> set (trace (snd (snd (addComment d svc c editor w))))"
  shows "WriteFile x \<in> set (trace w) \<or> AppendFile x \<in> set (trace w)
         \<or> (\<exists>rs. x = join (cleanCsvStorage d rs) (EOL d) @ EOL d)"
proof -
  obtain ok c1 w2 where sel: "getSelectedLines d c editor False (checkFileExists svc w)
                                = (ok, c1, w2)"
    by (cases "getSelectedLines d c editor False (checkFileExists svc w)") auto
  have w2: "WriteFile x \<in> set (trace w2) \<or> AppendFile x \<in> set (trace w2)
            \<Longrightarrow> WriteFile x \<in> set (trace w) \<or> AppendFile x \<in> set (trace w)"
    using getSelectedLines_trace [OF sel] trace_checkFileExists_cases [of svc w] by auto
  show ?thesis
  proof (cases "ok \<and> editor \<noteq> None")
    case False
    then have "trace (snd (snd (addComment d svc c editor w))) = trace w2"
      by (auto simp: addComment_def sel Let_def)
    with assms w2 show ?thesis by auto
  next
    case True
    then obtain e where e: "editor = Some e" by auto
    have "trace (snd (snd (addComment d svc c editor w)))
            = trace w2
                @ [AppendFile
                     (join (cleanCsvStorage d
                              [buildCsvString d svc
                                 (c1\<lparr>filename := replace (fileName e) (workspaceRoot svc) []\<rparr>)])
                        (EOL d) @ EOL d)]"
      using True sel unfolding e by (simp add: addComment_def Let_def trace_persistComments_append)
    with assms w2 show ?thesis by auto
  qed
qed

lemma updateComment_writes:
  assumes "WriteFile x \<in> set (trace (snd (snd (updateComment d svc c editor w))))
           \<or> AppendFile x \<in> set (trace (snd (snd (updateComment d svc c editor w))))"
  shows "WriteFile x \<in> set (trace w) \<or> AppendFile x \<in> set (trace w)
         \<or> (\<exists>rs. x = join (cleanCsvStorage d rs) (EOL d) @ EOL d)"
proof -
  obtain ok c1 w2 where sel: "getSelectedLines d c editor True (checkFileExists svc w)
                                = (ok, c1, w2)"
    by (cases "getSelectedLines d c editor True (checkFileExists svc w)") auto
  have w2: "WriteFile x \<in> set (trace w2) \<or> AppendFile x \<in> set (trace w2)
            \<Longrightarrow> WriteFile x \<in> set (trace w) \<or> AppendFile x \<in> set (trace w)"
    using getSelectedLines_trace [OF sel] trace_checkFileExists_cases [of svc w] by auto
  show ?thesis
  proof (cases ok)
    case False
    then have "trace (snd (snd (updateComment d svc c editor w))) = trace w2"
      by (simp add: updateComment_def sel Let_def)
    with assms w2 show ?thesis by auto
  next
    case True
    show ?thesis
    proof (cases "getCsvFileLinesAsArray d (fileContent w2)")
      case (Inl err)
      then have "trace (snd (snd (updateComment d svc c editor w))) = trace w2 @ [ReadFile]"
        using True by (simp add: updateComment_def sel Let_def)
      with assms w2 show ?thesis by auto
    next
      case (Inr rows)
      then have "trace (snd (snd (updateComment d svc c editor w)))
                   = trace w2 @ [ReadFile, ShowErrorMessage
                                   (CannotFindLineDefinition (lines c1) (filename c1)
                                      (reviewFile svc))]
                 \<or> (\<exists>rs. trace (snd (snd (updateComment d svc c editor w)))
                            = trace w2
                                @ [ReadFile,
                                   WriteFile (join (cleanCsvStorage d rs) (EOL d) @ EOL d)])"
        using True
        by (auto simp: updateComment_def sel Let_def trace_persistComments_overwrite)
      with assms w2 show ?thesis by auto
    qed
  qed
qed

lemma deleteComment_writes:
  assumes "WriteFile x \<in> set (trace (snd (deleteComment d svc entry w)))
           \<or> AppendFile x \<in> set (trace (snd (deleteComment d svc entry w)))"
  shows "WriteFile x \<in> set (trace w) \<or> AppendFile x \<in> set (trace w)
         \<or> (\<exists>rs. x = join (cleanCsvStorage d rs) (EOL d) @ EOL d)"
proof (cases "fileContent w")
  case None
  with assms show ?thesis
    by (auto simp: deleteComment_missing)
next
  case (Some old)
  have "trace (snd (deleteComment d svc entry w))
          = trace w @ [ReadFile,
                       ShowErrorMessage (CannotDeleteComment (label entry) (reviewFile svc))]
        \<or> (\<exists>rs. trace (snd (deleteComment d svc entry w))
                   = trace w
                       @ [ReadFile, WriteFile (join (cleanCsvStorage d rs) (EOL d) @ EOL d)])"
    by (auto simp: deleteComment_present [OF Some] Let_def trace_persistComments_overwrite)
  with assms show ?thesis by auto
qed

text \<open>
  C4. Whatever an operation writes is the rows that \<^verbatim>\<open>cleanCsvStorage\<close> retains, joined
  by the line terminator, with one more terminator at the end:
  \<^item> \<^verbatim>\<open>addComment\<close> with a selection appends that text for the one new row to the
    content of an existing file;
  \<^item> \<^verbatim>\<open>updateComment\<close> that finds its row replaces the content of the file by that
    text for the rows with the one row replaced;
  \<^item> \<^verbatim>\<open>deleteComment\<close> that finds its row replaces the content of the file by that
    text for the rows without the one row;
  \<^item> every write or append that any of the three operations adds to the trace, on any
    input, has that form for some rows.
\<close>

theorem persisted_content:
  "(selection e = Some s \<and> fileContent w = Some old \<longrightarrow>
      (case addComment d svc c (Some e) w of
         (out, c', w') \<Rightarrow>
           fileContent w'
             = Some (old @ join (cleanCsvStorage d [buildCsvString d svc c']) (EOL d) @ EOL d)
           \<and> trace w'
               = trace w
                   @ [AppendFile
                        (join (cleanCsvStorage d [buildCsvString d svc c']) (EOL d) @ EOL d)]))
   \<and> (getSelectedLines d c editor True (checkFileExists svc w) = (True, c1, w2)
       \<and> getCsvFileLinesAsArray d (fileContent w) = Inr rows
       \<and> byId = findIndex (\<lambda>row. includes_str row (entry_id c)) rows
       \<and> updateRowIndex
           = (if byId < 0
              then findIndex
                     (\<lambda>row. includes_str row (filename c) \<and> includes_str row (lines c)) rows
              else byId)
       \<and> 0 \<le> updateRowIndex
      \<longrightarrow>
      fileContent (snd (snd (updateComment d svc c editor w)))
        = Some (join (cleanCsvStorage d (rows[nat updateRowIndex := buildCsvString d svc c1]))
                  (EOL d) @ EOL d)
      \<and> trace (snd (snd (updateComment d svc c editor w)))
          = trace (checkFileExists svc w)
              @ [ReadFile,
                 WriteFile
                   (join (cleanCsvStorage d
                            (rows[nat updateRowIndex := buildCsvString d svc c1]))
                      (EOL d) @ EOL d)])
   \<and> (fileContent w = Some old
       \<and> deleteRowIndex
           = findIndex
               (\<lambda>row. includes_str row (label entry)
                        \<and> includes_str row
                            (escapeEndOfLineForCsv d
                               (escapeDoubleQuotesForCsv d (text_entry entry))))
               (split old (EOL d))
       \<and> 0 \<le> deleteRowIndex
      \<longrightarrow>
      fileContent (snd (deleteComment d svc entry w))
        = Some (join (cleanCsvStorage d (splice1 (nat deleteRowIndex) (split old (EOL d))))
                  (EOL d) @ EOL d)
      \<and> trace (snd (deleteComment d svc entry w))
          = trace w
              @ [ReadFile,
                 WriteFile
                   (join (cleanCsvStorage d
                            (splice1 (nat deleteRowIndex) (split old (EOL d))))
                      (EOL d) @ EOL d)])
   \<and> (WriteFile x \<in> set (trace (snd (snd (addComment d svc c editor w))))
       \<or> AppendFile x \<in> set (trace (snd (snd (addComment d svc c editor w))))
       \<or> WriteFile x \<in> set (trace (snd (snd (updateComment d svc c editor w))))
       \<or> AppendFile x \<in> set (trace (snd (snd (updateComment d svc c editor w))))
       \<or> WriteFile x \<in> set (trace (snd (deleteComment d svc entry w)))
       \<or> AppendFile x \<in> set (trace (snd (deleteComment d svc entry w)))
      \<longrightarrow>
      WriteFile x \<in> set (trace w) \<or> AppendFile x \<in> set (trace w)
      \<or> (\<exists>rs. x = join (cleanCsvStorage d rs) (EOL d) @ EOL d))"
proof (intro conjI impI)
  assume a: "selection e = Some s \<and> fileContent w = Some old"
  then have present: "checkFileExists svc w = w"
    by (simp add: checkFileExists_present)
  from a show "case addComment d svc c (Some e) w of
         (out, c', w') \<Rightarrow>
           fileContent w'
             = Some (old @ join (cleanCsvStorage d [buildCsvString d svc c']) (EOL d) @ EOL d)
           \<and> trace w'
               = trace w
                   @ [AppendFile
                        (join (cleanCsvStorage d [buildCsvString d svc c']) (EOL d) @ EOL d)]"
    by (simp add: addComment_selected Let_def present fileContent_persistComments_append
        trace_persistComments_append)
next
  assume a: "getSelectedLines d c editor True (checkFileExists svc w) = (True, c1, w2)
       \<and> getCsvFileLinesAsArray d (fileContent w) = Inr rows
       \<and> byId = findIndex (\<lambda>row. includes_str row (entry_id c)) rows
       \<and> updateRowIndex
           = (if byId < 0
              then findIndex
                     (\<lambda>row. includes_str row (filename c) \<and> includes_str row (lines c)) rows
              else byId)
       \<and> 0 \<le> updateRowIndex"
  then have sel: "getSelectedLines d c editor True (checkFileExists svc w) = (True, c1, w2)"
    and rd: "getCsvFileLinesAsArray d (fileContent w) = Inr rows"
    and idx: "(if findIndex (\<lambda>row. includes_str row (entry_id c)) rows < 0
               then findIndex
                      (\<lambda>row. includes_str row (filename c) \<and> includes_str row (lines c))
                      rows
               else findIndex (\<lambda>row. includes_str row (entry_id c)) rows) = updateRowIndex"
    and pos: "\<not> updateRowIndex < 0"
    by (auto split: if_splits)
  have upd: "updateComment d svc c editor w
               = (Returned, c1,
                  persistComments d (rows[nat updateRowIndex := buildCsvString d svc c1])
                    True
                    ((checkFileExists svc w)
                       \<lparr>trace := trace (checkFileExists svc w) @ [ReadFile]\<rparr>))"
    unfolding updateComment_read [OF sel rd] Let_def idx using pos by simp
  show "fileContent (snd (snd (updateComment d svc c editor w)))
        = Some (join (cleanCsvStorage d (rows[nat updateRowIndex := buildCsvString d svc c1]))
                  (EOL d) @ EOL d)"
    unfolding upd by (simp add: fileContent_persistComments_overwrite)
  show "trace (snd (snd (updateComment d svc c editor w)))
          = trace (checkFileExists svc w)
              @ [ReadFile,
                 WriteFile
                   (join (cleanCsvStorage d
                            (rows[nat updateRowIndex := buildCsvString d svc c1]))
                      (EOL d) @ EOL d)]"
    unfolding upd by (simp add: trace_persistComments_overwrite)
next
  assume a: "fileContent w = Some old
       \<and> deleteRowIndex
           = findIndex
               (\<lambda>row. includes_str row (label entry)
                        \<and> includes_str row
                            (escapeEndOfLineForCsv d
                               (escapeDoubleQuotesForCsv d (text_entry entry))))
               (split old (EOL d))
       \<and> 0 \<le> deleteRowIndex"
  then have present: "fileContent w = Some old"
    and idx: "findIndex
               (\<lambda>row. includes_str row (label entry)
                        \<and> includes_str row
                            (escapeEndOfLineForCsv d
                               (escapeDoubleQuotesForCsv d (text_entry entry))))
               (split old (EOL d)) = deleteRowIndex"
    and pos: "0 \<le> deleteRowIndex"
    by auto
  have del: "deleteComment d svc entry w
               = (Returned,
                  persistComments d (splice1 (nat deleteRowIndex) (split old (EOL d)))
                    True (w\<lparr>trace := trace w @ [ReadFile]\<rparr>))"
    unfolding deleteComment_present [OF present] Let_def idx using pos by simp
  show "fileContent (snd (deleteComment d svc entry w))
        = Some (join (cleanCsvStorage d (splice1 (nat deleteRowIndex) (split old (EOL d))))
                  (EOL d) @ EOL d)"
    unfolding del by (simp add: fileContent_persistComments_overwrite)
  show "trace (snd (deleteComment d svc entry w))
          = trace w
              @ [ReadFile,
                 WriteFile
                   (join (cleanCsvStorage d
                            (splice1 (nat deleteRowIndex) (split old (EOL d))))
                      (EOL d) @ EOL d)]"
    unfolding del by (simp add: trace_persistComments_overwrite)
next
  assume "WriteFile x \<in> set (trace (snd (snd (addComment d svc c editor w))))
       \<or> AppendFile x \<in> set (trace (snd (snd (addComment d svc c editor w))))
       \<or> WriteFile x \<in> set (trace (snd (snd (updateComment d svc c editor w))))
       \<or> AppendFile x \<in> set (trace (snd (snd (updateComment d svc c editor w))))
       \<or> WriteFile x \<in> set (trace (snd (deleteComment d svc entry w)))
       \<or> AppendFile x \<in> set (trace (snd (deleteComment d svc entry w)))"
  then show "WriteFile x \<in> set (trace w) \<or> AppendFile x \<in> set (trace w)
      \<or> (\<exists>rs. x = join (cleanCsvStorage d rs) (EOL d) @ EOL d)"
    using addComment_writes [of x d svc c editor w]
      updateComment_writes [of x d svc c editor w]
      deleteComment_writes [of x d svc entry w]
    by blast
qed

lemma example_editor_selection:
  "selection example_editor
     = Some \<lparr>sel_start = \<lparr>line = 5, character = 0\<rparr>, sel_end = \<lparr>line = 10, character = 2\<rparr>\<rparr>"
  by (simp add: example_editor_def)

lemma example_added_entry:
  "fst (snd (addComment (spec_collaborators [] [] None) example_service
               (example_entry\<lparr>filename := [], lines := []\<rparr>) (Some example_editor) w))
     = example_entry"
  by (simp add: addComment_selected [OF example_editor_selection] Let_def
      example_selection_definition example_relative_name example_entry_def)

theorem persisted_content_witness:
  "fileContent
     (snd (snd (addComment (spec_collaborators [] [] None) example_service
                  (example_entry\<lparr>filename := [], lines := []\<rparr>)
                  (Some example_editor) stored_file)))
     = Some (''/src/a.ts,1-2,id-0'' @ [CHR 0x0A] @ ''/src/x.ts,5-10,id-1'' @ [CHR 0x0A]
               @ '',/src/x.ts,,5-10,'' @ quoted ''T'' @ '','' @ quoted ''hi'' @ '',1,,''
               @ quoted [] @ '',id-1'' @ [CHR 0x0A])
   \<and> (\<exists>rs. '',/src/x.ts,,5-10,'' @ quoted ''T'' @ '','' @ quoted ''hi'' @ '',1,,''
               @ quoted [] @ '',id-1'' @ [CHR 0x0A]
             = join (cleanCsvStorage (spec_collaborators [] [] None) rs)
                 (EOL (spec_collaborators [] [] None))
                 @ EOL (spec_collaborators [] [] None))
   \<and> trace
       (snd (snd (updateComment (spec_collaborators [] [] None) example_service example_entry
                    (Some example_editor) stored_file)))
     = [ReadFile,
        WriteFile
          (''/src/a.ts,1-2,id-0'' @ [CHR 0x0A]
             @ '',/src/x.ts,,5-10,'' @ quoted ''T'' @ '','' @ quoted ''hi'' @ '',1,,''
             @ quoted [] @ '',id-1'' @ [CHR 0x0A])]
   \<and> trace
       (snd (deleteComment (spec_collaborators [] [] None) example_service
               \<lparr>label = ''Typo'', text_entry = ''fix typo''\<rparr> listed_file))
     = [ReadFile,
        WriteFile
          (''Naming,rename this,id-0'' @ [CHR 0x0A] @ ''Naming,rename this,id-2''
             @ [CHR 0x0A])]"
proof -
  let ?d = "spec_collaborators [] [] None"
  let ?new = "example_entry\<lparr>filename := [], lines := []\<rparr>"
  let ?stored = "''/src/a.ts,1-2,id-0'' @ [CHR 0x0A] @ ''/src/x.ts,5-10,id-1'' @ [CHR 0x0A]"
  let ?rows = "[''/src/a.ts,1-2,id-0'', ''/src/x.ts,5-10,id-1'', []]"
  let ?row = "'',/src/x.ts,,5-10,'' @ quoted ''T'' @ '','' @ quoted ''hi'' @ '',1,,''
                @ quoted [] @ '',id-1''"
  let ?listed = "''Naming,rename this,id-0'' @ [CHR 0x0A] @ ''Typo,fix typo,id-1''
                   @ [CHR 0x0A] @ ''Naming,rename this,id-2'' @ [CHR 0x0A]"
  let ?typo = "\<lparr>label = ''Typo'', text_entry = ''fix typo''\<rparr>"
  have clean: "cleanCsvStorage ?d = cleanCsvStorage_spec" and eol: "EOL ?d = [CHR 0x0A]"
    and escDQ: "escapeDoubleQuotesForCsv ?d = escapeDoubleQuotesForCsv_spec"
    and escEOL: "escapeEndOfLineForCsv ?d = escapeEndOfLineForCsv_spec"
    by (simp_all add: spec_collaborators_def)
  have stored: "fileContent stored_file = Some ?stored"
    and listed: "fileContent listed_file = Some ?listed"
    and traces: "trace stored_file = []" "trace listed_file = []"
    by (simp_all add: stored_file_def listed_file_def)
  have row: "buildCsvString ?d example_service example_entry = ?row"
    by (rule example_row)
  have row': "buildCsvString ?d example_service (example_entry\<lparr>lines := ''5-10''\<rparr>) = ?row"
    using example_row by (simp add: example_entry_def)

  note add = persisted_content [where e = example_editor and w = stored_file and old = "?stored"
      and d = "?d" and svc = example_service and c = "?new"]
  from add example_editor_selection stored
  have "fileContent
          (snd (snd (addComment ?d example_service ?new (Some example_editor) stored_file)))
        = Some (?stored
                  @ join (cleanCsvStorage ?d
                            [buildCsvString ?d example_service
                               (fst (snd (addComment ?d example_service ?new
                                            (Some example_editor) stored_file)))])
                      (EOL ?d) @ EOL ?d)"
    by (simp add: case_prod_unfold)
  then have A: "fileContent
          (snd (snd (addComment ?d example_service ?new (Some example_editor) stored_file)))
        = Some (?stored @ ?row @ [CHR 0x0A])"
    unfolding example_added_entry row clean eol
    by (simp add: cleanCsvStorage_spec_def quoted_def)
  from add example_editor_selection stored
  have "trace
          (snd (snd (addComment ?d example_service ?new (Some example_editor) stored_file)))
        = trace stored_file
            @ [AppendFile
                 (join (cleanCsvStorage ?d
                          [buildCsvString ?d example_service
                             (fst (snd (addComment ?d example_service ?new
                                          (Some example_editor) stored_file)))])
                    (EOL ?d) @ EOL ?d)]"
    by (simp add: case_prod_unfold)
  then have "trace
          (snd (snd (addComment ?d example_service ?new (Some example_editor) stored_file)))
        = [AppendFile (?row @ [CHR 0x0A])]"
    unfolding example_added_entry row clean eol traces
    by (simp add: cleanCsvStorage_spec_def quoted_def)
  then have appended: "AppendFile (?row @ [CHR 0x0A])
      \<in> set (trace (snd (snd (addComment ?d example_service ?new (Some example_editor)
                                  stored_file))))"
    by simp
  have "\<exists>rs. ?row @ [CHR 0x0A] = join (cleanCsvStorage ?d rs) (EOL ?d) @ EOL ?d"
    using persisted_content [where w = stored_file and d = "?d" and svc = example_service
        and c = "?new" and editor = "Some example_editor" and x = "?row @ [CHR 0x0A]"] appended traces
    by simp
  then have B: "\<exists>rs. ?row @ [CHR 0x0A] = join (cleanCsvStorage ?d rs) (EOL ?d) @ EOL ?d" .

  have sel: "getSelectedLines ?d example_entry (Some example_editor) True
               (checkFileExists example_service stored_file)
             = (True, example_entry\<lparr>lines := ''5-10''\<rparr>,
                checkFileExists example_service stored_file)"
    by (rule example_editor_selected)
  have read: "getCsvFileLinesAsArray ?d (fileContent stored_file) = Inr ?rows"
    by (rule stored_file_read)
  have byId: "(1::int) = findIndex (\<lambda>row. includes_str row (entry_id example_entry)) ?rows"
    by (simp add: example_entry_def)
  have idx: "(1::int)
               = (if (1::int) < 0
                  then findIndex
                         (\<lambda>row. includes_str row (filename example_entry)
                                  \<and> includes_str row (lines example_entry)) ?rows
                  else 1)"
    by simp
  from persisted_content [where w = stored_file and d = "?d" and svc = example_service
      and c = example_entry and ?c1.0 = "example_entry\<lparr>lines := ''5-10''\<rparr>"
      and editor = "Some example_editor"
      and ?w2.0 = "checkFileExists example_service stored_file" and rows = "?rows"
      and byId = 1 and updateRowIndex = 1] sel read byId idx
  have "trace (snd (snd (updateComment ?d example_service example_entry
                           (Some example_editor) stored_file)))
          = trace (checkFileExists example_service stored_file)
              @ [ReadFile,
                 WriteFile
                   (join (cleanCsvStorage ?d
                            (?rows[nat 1 := buildCsvString ?d example_service
                                              (example_entry\<lparr>lines := ''5-10''\<rparr>)]))
                      (EOL ?d) @ EOL ?d)]"
    by simp
  then have C: "trace (snd (snd (updateComment ?d example_service example_entry
                           (Some example_editor) stored_file)))
          = [ReadFile, WriteFile (''/src/a.ts,1-2,id-0'' @ [CHR 0x0A] @ ?row @ [CHR 0x0A])]"
    unfolding row' clean eol stored_file_exists traces
    by (simp add: cleanCsvStorage_spec_def quoted_def)

  have rows: "split ?listed (EOL ?d)
                = [''Naming,rename this,id-0'', ''Typo,fix typo,id-1'',
                   ''Naming,rename this,id-2'', []]"
    using listed_rows by (simp add: eol)
  have del: "(1::int)
               = findIndex
                   (\<lambda>row. includes_str row (label ?typo)
                            \<and> includes_str row
                                (escapeEndOfLineForCsv ?d
                                   (escapeDoubleQuotesForCsv ?d (text_entry ?typo))))
                   (split ?listed (EOL ?d))"
    unfolding rows escDQ escEOL by simp
  from persisted_content [where w = listed_file and old = "?listed" and d = "?d"
      and svc = example_service and deleteRowIndex = 1 and entry = "?typo"]
    listed del
  have "trace (snd (deleteComment ?d example_service ?typo listed_file))
          = trace listed_file
              @ [ReadFile,
                 WriteFile
                   (join (cleanCsvStorage ?d (splice1 (nat 1) (split ?listed (EOL ?d))))
                      (EOL ?d) @ EOL ?d)]"
    by simp
  then have D: "trace (snd (deleteComment ?d example_service ?typo listed_file))
          = [ReadFile,
             WriteFile (''Naming,rename this,id-0'' @ [CHR 0x0A]
                          @ ''Naming,rename this,id-2'' @ [CHR 0x0A])]"
    unfolding clean eol traces listed_rows
    by (simp add: cleanCsvStorage_spec_def splice1_def)
  from A B C D show ?thesis by simp
qed

section \<open>Serialization of an entry\<close>

lemma set_escapeDoubleQuotesForCsv_spec: "set s \<subseteq> set (escapeDoubleQuotesForCsv_spec s)"
  by (induction s) auto

lemma set_join: "r \<in> set rs \<Longrightarrow> set r \<subseteq> set (join rs sep)"
  by (rule set_mono_sublist) (rule sublist_join)

lemma set_formatAsCsvLine_spec:
  "set (title e) \<subseteq> set (formatAsCsvLine_spec e)"
  "set (additional e) \<subseteq> set (formatAsCsvLine_spec e)"
proof -
  have "set (quoted (title e)) \<subseteq> set (formatAsCsvLine_spec e)"
    unfolding formatAsCsvLine_spec_def by (rule set_join) simp
  then show "set (title e) \<subseteq> set (formatAsCsvLine_spec e)"
    by (auto simp: quoted_def)
  have "set (quoted (additional e)) \<subseteq> set (formatAsCsvLine_spec e)"
    unfolding formatAsCsvLine_spec_def by (rule set_join) simp
  then show "set (additional e) \<subseteq> set (formatAsCsvLine_spec e)"
    by (auto simp: quoted_def)
qed

text \<open>
  C2. \<^verbatim>\<open>buildCsvString\<close> passes the comment text through both escapes, and the
  title and the additional field through \<^verbatim>\<open>escapeDoubleQuotesForCsv\<close> only. So,
  whenever escaping the double quotes of a text keeps its line feeds and the formatted
  line shows the title and the additional field it is given, a line feed in the title or
  in the additional field of an entry is still in the serialized row, which then takes
  more than one line of the file.
\<close>

theorem line_feed_in_title_or_additional_is_kept:
  assumes "CHR 0x0A \<in> set (title c) \<or> CHR 0x0A \<in> set (additional c)"
    and "\<And>s. CHR 0x0A \<in> set s \<Longrightarrow> CHR 0x0A \<in> set (escapeDoubleQuotesForCsv d s)"
    and "\<And>e. set (title e) \<subseteq> set (formatAsCsvLine d e)"
    and "\<And>e. set (additional e) \<subseteq> set (formatAsCsvLine d e)"
  shows "CHR 0x0A \<in> set (buildCsvString d svc c)"
proof -
  obtain e where row: "buildCsvString d svc c = formatAsCsvLine d e"
    and t: "title e = (if title c \<noteq> [] then escapeDoubleQuotesForCsv d (title c) else [])"
    and a: "additional e
              = (if additional c \<noteq> [] then escapeDoubleQuotesForCsv d (additional c) else [])"
    by (simp add: buildCsvString_def Let_def)
  from assms(1) show ?thesis
  proof
    assume lf: "CHR 0x0A \<in> set (title c)"
    then have "title c \<noteq> []" by auto
    with lf t assms(2) have "CHR 0x0A \<in> set (title e)" by simp
    with assms(3) [of e] show ?thesis
      unfolding row by blast
  next
    assume lf: "CHR 0x0A \<in> set (additional c)"
    then have "additional c \<noteq> []" by auto
    with lf a assms(2) have "CHR 0x0A \<in> set (additional e)" by simp
    with assms(4) [of e] show ?thesis
      unfolding row by blast
  qed
qed

theorem line_feed_in_title_or_additional_is_kept_witness:
  "split (buildCsvString (spec_collaborators [] [] None) example_service
            (example_entry\<lparr>title := ''T1'' @ [CHR 0x0A] @ ''T2''\<rparr>)) [CHR 0x0A]
     = ['',/src/x.ts,,5-10,'' @ [CHR 0x22] @ ''T1'',
        ''T2'' @ [CHR 0x22] @ '','' @ quoted ''hi'' @ '',1,,'' @ quoted [] @ '',id-1'']
   \<and> CHR 0x0A
       \<in> set (buildCsvString (spec_collaborators [] [] None) example_service
                 (example_entry\<lparr>title := ''T1'' @ [CHR 0x0A] @ ''T2''\<rparr>))"
proof -
  let ?d = "spec_collaborators [] [] None"
  let ?c = "example_entry\<lparr>title := ''T1'' @ [CHR 0x0A] @ ''T2''\<rparr>"
  have lf: "CHR 0x0A \<in> set (title ?c) \<or> CHR 0x0A \<in> set (additional ?c)"
    by simp
  have esc: "\<And>s. CHR 0x0A \<in> set s \<Longrightarrow> CHR 0x0A \<in> set (escapeDoubleQuotesForCsv ?d s)"
    using set_escapeDoubleQuotesForCsv_spec by (auto simp: spec_collaborators_def)
  have fmt: "\<And>e. set (title e) \<subseteq> set (formatAsCsvLine ?d e)"
    "\<And>e. set (additional e) \<subseteq> set (formatAsCsvLine ?d e)"
    using set_formatAsCsvLine_spec by (simp_all add: spec_collaborators_def)
  have kept: "CHR 0x0A \<in> set (buildCsvString ?d example_service ?c)"
    using lf esc fmt by (rule line_feed_in_title_or_additional_is_kept)
  have "buildCsvString ?d example_service ?c
          = '',/src/x.ts,,5-10,'' @ [CHR 0x22] @ ''T1'' @ [CHR 0x0A] @ ''T2'' @ [CHR 0x22]
              @ '','' @ quoted ''hi'' @ '',1,,'' @ quoted [] @ '',id-1''"
    by (simp add: buildCsvString_def example_service_def example_entry_def remoteUrl_def
        spec_simps)
  then have "split (buildCsvString ?d example_service ?c) [CHR 0x0A]
     = ['',/src/x.ts,,5-10,'' @ [CHR 0x22] @ ''T1'',
        ''T2'' @ [CHR 0x22] @ '','' @ quoted ''hi'' @ '',1,,'' @ quoted [] @ '',id-1'']"
    by (simp add: split_def quoted_def)
  with kept show ?thesis by simp
qed

section \<open>Placeholders of the custom URL template\<close>

text \<open>The primitive by itself: a pattern that does not occur leaves the string as it
  is; otherwise the first occurrence, and only that one, makes way for the replacement
  text, which is taken literally when it holds no dollar sign.\<close>

lemma replace_from_absent: "\<not> sublist pat s \<Longrightarrow> replace_from acc s pat rep = acc @ s"
proof (induction s arbitrary: acc)
  case Nil
  then show ?case by auto
next
  case (Cons c cs)
  then have "\<not> prefix pat (c # cs)" "\<not> sublist pat cs"
    by (simp_all add: sublist_Cons_right)
  with Cons.IH [where acc = "acc @ [c]"] show ?case by simp
qed

lemma replace_absent: "\<not> sublist pat s \<Longrightarrow> replace s pat rep = s"
  by (simp add: replace_def replace_from_absent)

lemma replace_from_first_occurrence:
  "(\<forall>pre' post'. pre @ pat @ post = pre' @ pat @ post' \<longrightarrow> length pre \<le> length pre')
   \<Longrightarrow> replace_from acc (pre @ pat @ post) pat rep
         = acc @ pre @ getSubstitution pat (acc @ pre) post rep @ post"
proof (induction pre arbitrary: acc)
  case Nil
  show ?case
  proof (cases "pat @ post")
    case Nil
    then show ?thesis by simp
  next
    case (Cons c cs)
    have "prefix pat (c # cs)"
      unfolding Cons [symmetric] by simp
    moreover have "drop (length pat) (c # cs) = post"
      unfolding Cons [symmetric] by simp
    ultimately have "replace_from acc (c # cs) pat rep
                       = acc @ getSubstitution pat acc post rep @ post"
      by simp
    then show ?thesis
      unfolding Cons [symmetric] by simp
  qed
next
  case (Cons c pre)
  have "\<not> prefix pat ((c # pre) @ pat @ post)"
  proof
    assume "prefix pat ((c # pre) @ pat @ post)"
    then obtain post' where "(c # pre) @ pat @ post = [] @ pat @ post'"
      by (auto simp: prefix_def)
    with Cons.prems have "length (c # pre) \<le> length ([]::string)" by blast
    then show False by simp
  qed
  then have step: "replace_from acc ((c # pre) @ pat @ post) pat rep
                     = replace_from (acc @ [c]) (pre @ pat @ post) pat rep"
    by simp
  have "\<forall>pre' post'. pre @ pat @ post = pre' @ pat @ post' \<longrightarrow> length pre \<le> length pre'"
  proof (intro allI impI)
    fix pre' post'
    assume "pre @ pat @ post = pre' @ pat @ post'"
    then have "(c # pre) @ pat @ post = (c # pre') @ pat @ post'" by simp
    with Cons.prems have "length (c # pre) \<le> length (c # pre')" by blast
    then show "length pre \<le> length pre'" by simp
  qed
  from Cons.IH [OF this, where acc = "acc @ [c]"] show ?case
    unfolding step by simp
qed

lemma replace_first_occurrence:
  assumes "\<forall>pre' post'. pre @ pat @ post = pre' @ pat @ post' \<longrightarrow> length pre \<le> length pre'"
  shows "replace (pre @ pat @ post) pat rep = pre @ getSubstitution pat pre post rep @ post"
  using replace_from_first_occurrence [OF assms, where acc = "[]" and rep = rep]
  by (simp add: replace_def)









































end
